theory Spec2Isabelle
  imports Main
begin

section \<open>Text: Python strings as lists of Unicode code points\<close>

text \<open>
  A Python \<open>str\<close> is a sequence of code points, so \<open>len\<close>, indexing and slicing count
  code points. A code point is a natural number, a string a list of them.
\<close>

type_synonym cp = nat
type_synonym ustr = "cp list"

text \<open>
  \<open>str.isspace\<close> on one character, which is also what \<open>\s\<close> matches in a \<open>str\<close>
  pattern and what \<open>str.strip()\<close> removes: the code points of bidirectional class WS, B
  or S, or of category Zs.
\<close>

definition is_space :: "cp \<Rightarrow> bool" where
  "is_space c \<longleftrightarrow>
     (0x09 \<le> c \<and> c \<le> 0x0D) \<or> (0x1C \<le> c \<and> c \<le> 0x20) \<or> c = 0x85 \<or> c = 0xA0 \<or>
     c = 0x1680 \<or> (0x2000 \<le> c \<and> c \<le> 0x200A) \<or> c = 0x2028 \<or> c = 0x2029 \<or>
     c = 0x202F \<or> c = 0x205F \<or> c = 0x3000"

definition lstrip :: "ustr \<Rightarrow> ustr" where
  "lstrip s = dropWhile is_space s"

definition rstrip :: "ustr \<Rightarrow> ustr" where
  "rstrip s = rev (dropWhile is_space (rev s))"

definition strip :: "ustr \<Rightarrow> ustr" where
  "strip s = rstrip (lstrip s)"

text \<open>\<open>is_cjk\<close>: the three ranges of pdf_spellcheck.py line 69.\<close>

definition is_cjk :: "cp \<Rightarrow> bool" where
  "is_cjk ch \<longleftrightarrow>
     (0x4E00 \<le> ch \<and> ch \<le> 0x9FFF) \<or> (0x3400 \<le> ch \<and> ch \<le> 0x4DBF) \<or>
     (0xF900 \<le> ch \<and> ch \<le> 0xFAFF)"

section \<open>Regular expressions of the \<open>re\<close> module\<close>

text \<open>
  The patterns the repository builds are kept in parsed form: a pattern is a list of
  nodes matched one after the other. \<open>Lit c\<close> is an escaped or plain literal,
  \<open>Cls\<close> a bracket class or \<open>\s\<close>, \<open>Rep cs lo hi\<close> the greedy repetition of a class
  (\<open>*\<close> is \<open>Rep cs 0 None\<close>, \<open>+\<close> is \<open>Rep cs 1 None\<close>, \<open>{m,n}\<close> is
  \<open>Rep cs m (Some n)\<close>), \<open>Alt\<close> the alternation of a non-capturing group and
  \<open>Mark\<close> the opening or closing parenthesis of a named group.
\<close>

datatype citem = CRange cp cp | CChr cp | CWs

type_synonym cset = "citem list"

fun in_citem :: "citem \<Rightarrow> cp \<Rightarrow> bool" where
  "in_citem (CRange lo hi) c = (lo \<le> c \<and> c \<le> hi)"
| "in_citem (CChr d) c = (c = d)"
| "in_citem CWs c = is_space c"

definition in_cset :: "cset \<Rightarrow> cp \<Rightarrow> bool" where
  "in_cset cs c = list_ex (\<lambda>i. in_citem i c) cs"

datatype node =
    Lit cp
  | Cls cset
  | Rep cset nat "nat option"
  | Alt "node list" "node list"
  | Mark string

type_synonym pattern = "node list"

abbreviation ws_star :: node where "ws_star \<equiv> Rep [CWs] 0 None"
abbreviation ws_plus :: node where "ws_plus \<equiv> Rep [CWs] 1 None"

text \<open>
  The backtracking matcher. \<open>rx_match eqc p s k caps\<close> matches \<open>p\<close> at the start of
  \<open>s\<close>, having consumed \<open>k\<close> characters so far, and returns every way to match as the
  number of characters consumed and the group marks passed, in the order in which
  \<open>re\<close> tries them (greedy repetitions longest first, the left alternative first): the
  head of the list is the match \<open>re\<close> reports. \<open>eqc\<close> compares a literal of the pattern
  with a character of the text: equality, or equality up to case under
  \<open>re.IGNORECASE\<close>.
\<close>

definition run :: "cset \<Rightarrow> ustr \<Rightarrow> nat" where
  "run cs s = length (takeWhile (in_cset cs) s)"

definition rep_top :: "nat option \<Rightarrow> nat \<Rightarrow> nat" where
  "rep_top hi r = (case hi of None \<Rightarrow> r | Some h \<Rightarrow> min h r)"

type_synonym caps = "(string \<times> nat) list"

function rx_match ::
  "(cp \<Rightarrow> cp \<Rightarrow> bool) \<Rightarrow> pattern \<Rightarrow> ustr \<Rightarrow> nat \<Rightarrow> caps \<Rightarrow> (nat \<times> caps) list" where
  "rx_match eqc [] s k caps = [(k, caps)]"
| "rx_match eqc (Lit c # p) s k caps =
     (case s of [] \<Rightarrow> []
      | d # s' \<Rightarrow> if eqc c d then rx_match eqc p s' (Suc k) caps else [])"
| "rx_match eqc (Cls cs # p) s k caps =
     (case s of [] \<Rightarrow> []
      | d # s' \<Rightarrow> if in_cset cs d then rx_match eqc p s' (Suc k) caps else [])"
| "rx_match eqc (Rep cs lo hi # p) s k caps =
     concat (map (\<lambda>j. rx_match eqc p (drop j s) (k + j) caps)
                 (rev [lo ..< Suc (rep_top hi (run cs s))]))"
| "rx_match eqc (Alt a b # p) s k caps =
     rx_match eqc (a @ p) s k caps @ rx_match eqc (b @ p) s k caps"
| "rx_match eqc (Mark g # p) s k caps = rx_match eqc p s k (caps @ [(g, k)])"
  by pat_completeness auto
termination
  by (relation "measure (\<lambda>(eqc, p, s, k, caps). size_list size p)") auto

text \<open>
  A match object: \<open>m.start()\<close>, \<open>m.end()\<close> and the group marks (offsets from the
  start of the match).
\<close>

record rmatch =
  m_start :: nat
  m_end :: nat
  m_caps :: caps

definition mk_match :: "nat \<Rightarrow> nat \<times> caps \<Rightarrow> rmatch" where
  "mk_match pos r = \<lparr>m_start = pos, m_end = pos + fst r, m_caps = snd r\<rparr>"

text \<open>
  What \<open>finditer\<close> reports at one start position: the first match; when that match is
  empty, the scanner asks again at the same position for a non-empty one.
\<close>

definition hits_here :: "(cp \<Rightarrow> cp \<Rightarrow> bool) \<Rightarrow> pattern \<Rightarrow> ustr \<Rightarrow> (nat \<times> caps) list" where
  "hits_here eqc p s =
     (case rx_match eqc p s 0 [] of
        [] \<Rightarrow> []
      | r # rs \<Rightarrow>
          if 0 < fst r then [r]
          else r # (case filter (\<lambda>x. 0 < fst x) rs of [] \<Rightarrow> [] | r' # _ \<Rightarrow> [r']))"

definition next_skip :: "(nat \<times> caps) list \<Rightarrow> nat" where
  "next_skip hs = (case hs of [] \<Rightarrow> 0 | _ \<Rightarrow> fst (last hs) - 1)"

text \<open>
  \<open>finditer\<close>: the non-overlapping matches from left to right. \<open>skip\<close> counts the
  characters still covered by the previous match.
\<close>

fun finditer_from :: "(cp \<Rightarrow> cp \<Rightarrow> bool) \<Rightarrow> pattern \<Rightarrow> nat \<Rightarrow> nat \<Rightarrow> ustr \<Rightarrow> rmatch list" where
  "finditer_from eqc p pos skip [] =
     (if skip = 0 then map (mk_match pos) (hits_here eqc p []) else [])"
| "finditer_from eqc p pos skip (c # cs) =
     (if 0 < skip then finditer_from eqc p (Suc pos) (skip - 1) cs
      else let hs = hits_here eqc p (c # cs)
           in map (mk_match pos) hs @ finditer_from eqc p (Suc pos) (next_skip hs) cs)"

definition finditer :: "(cp \<Rightarrow> cp \<Rightarrow> bool) \<Rightarrow> pattern \<Rightarrow> ustr \<Rightarrow> rmatch list" where
  "finditer eqc p s = finditer_from eqc p 0 0 s"

text \<open>
  The comparison of literals under \<open>re.IGNORECASE\<close>. The case pairs of the Unicode
  database are not part of the repository: \<open>cf c d\<close> says that \<open>c\<close> and \<open>d\<close> differ
  only in case.
\<close>

definition ieq :: "(cp \<Rightarrow> cp \<Rightarrow> bool) \<Rightarrow> cp \<Rightarrow> cp \<Rightarrow> bool" where
  "ieq cf c d \<longleftrightarrow> c = d \<or> cf c d"

section \<open>The fuzzy token pattern builder\<close>

text \<open>
  \<open>cjk_fuzzy_pattern\<close> (pdf_spellcheck.py) and \<open>cjk_pat\<close> (the Streamlit variants) are
  the same function: one fragment per character of the stripped token.
\<close>

definition HYPHEN :: cp where "HYPHEN = 0x2D"

definition cjk_fragment :: "cp \<Rightarrow> pattern" where
  "cjk_fragment ch =
     (if is_space ch then [ws_plus]
      else if is_cjk ch then [Lit ch, ws_star]
      else if ch = HYPHEN then [ws_star, Lit HYPHEN, ws_star]
      else [Lit ch])"

definition cjk_fuzzy_pattern :: "ustr \<Rightarrow> pattern" where
  "cjk_fuzzy_pattern token = concat (map cjk_fragment (strip token))"

definition cjk_pat :: "ustr \<Rightarrow> pattern" where
  "cjk_pat tok = cjk_fuzzy_pattern tok"

section \<open>Variant cells\<close>

text \<open>A cell of a table: a string, or any other Python value.\<close>

datatype 'v cell = Str ustr | NonStr 'v

text \<open>
  \<open>re.split\<close> on runs of the five delimiters (comma, U+FF0C, semicolon, slash, U+3001): the pieces of \<open>s\<close> between maximal runs of
  delimiters, with an empty piece where \<open>s\<close> starts or ends with a delimiter.
\<close>

definition is_delim :: "cp \<Rightarrow> bool" where
  "is_delim c \<longleftrightarrow> c = 0x2C \<or> c = 0xFF0C \<or> c = 0x3B \<or> c = 0x2F \<or> c = 0x3001"

fun re_split :: "ustr \<Rightarrow> ustr list" where
  "re_split [] = [[]]"
| "re_split (c # s) =
     (if is_delim c then
        (case s of
           [] \<Rightarrow> [] # re_split s
         | d # _ \<Rightarrow> if is_delim d then re_split s else [] # re_split s)
      else (case re_split s of p # ps \<Rightarrow> (c # p) # ps | [] \<Rightarrow> [[c]]))"

definition split_variants :: "'v cell \<Rightarrow> ustr list" where
  "split_variants cell =
     (case cell of
        NonStr v \<Rightarrow> []
      | Str s \<Rightarrow> filter (\<lambda>p. p \<noteq> []) (re_split (strip s)))"

record term_row =
  en_canonical :: ustr
  zh_canonical :: ustr
  abbr :: ustr
  first_mention_style :: ustr
  variant :: ustr

section \<open>The bilingual pair extractor\<close>

text \<open>\<open>re.sub(r"\s+", " ", s)\<close>: every run of whitespace becomes one space.\<close>

definition SPACE :: cp where "SPACE = 0x20"

fun collapse_ws :: "ustr \<Rightarrow> ustr" where
  "collapse_ws [] = []"
| "collapse_ws (c # s) =
     (if is_space c then
        (case s of
           [] \<Rightarrow> [SPACE]
         | d # _ \<Rightarrow> if is_space d then collapse_ws s else SPACE # collapse_ws s)
      else c # collapse_ws s)"

text \<open>
  \<open>df.drop_duplicates(subset=...)\<close> keeps the first row of every key, in order.
\<close>

fun dedup_from :: "('a \<Rightarrow> 'k) \<Rightarrow> 'k list \<Rightarrow> 'a list \<Rightarrow> 'a list" where
  "dedup_from key seen [] = []"
| "dedup_from key seen (x # xs) =
     (if key x \<in> set seen then dedup_from key seen xs
      else x # dedup_from key (key x # seen) xs)"

definition drop_duplicates :: "('a \<Rightarrow> 'k) \<Rightarrow> 'a list \<Rightarrow> 'a list" where
  "drop_duplicates key xs = dedup_from key [] xs"

definition triple :: "'a term_row_scheme \<Rightarrow> ustr \<times> ustr \<times> ustr" where
  "triple r = (en_canonical r, zh_canonical r, abbr r)"

text \<open>
  The character classes and patterns of \<open>parse_pdf_pairs\<close>: \<open>ZH\<close> is
  \<open>[U+4E00-U+9FA5]{2,30}\<close>, \<open>EN\<close> is \<open>[A-Za-z][A-Za-z0-9\-\s]{1,80}\<close>, \<open>ABBR\<close> is
  \<open>[A-Za-z][A-Za-z0-9\-]{1,10}\<close>. They are compiled without flags, so literals compare
  by equality. A named group \<open>g\<close> is delimited by the marks \<open>g<\<close> and \<open>g>\<close>.
\<close>

definition LETTER :: cset where
  "LETTER = [CRange 0x41 0x5A, CRange 0x61 0x7A]"

definition ALNUM_HYPHEN :: cset where
  "ALNUM_HYPHEN = [CRange 0x41 0x5A, CRange 0x61 0x7A, CRange 0x30 0x39, CChr 0x2D]"

definition ZH :: pattern where
  "ZH = [Rep [CRange 0x4E00 0x9FA5] 2 (Some 30)]"

definition EN :: pattern where
  "EN = [Cls LETTER, Rep (ALNUM_HYPHEN @ [CWs]) 1 (Some 80)]"

definition ABBR :: pattern where
  "ABBR = [Cls LETTER, Rep ALNUM_HYPHEN 1 (Some 10)]"

definition grp :: "string \<Rightarrow> pattern \<Rightarrow> pattern" where
  "grp g p = Mark (g @ ''<'') # p @ [Mark (g @ ''>'')]"

definition LPAR :: node where "LPAR = Cls [CChr 0x28, CChr 0xFF08]"
definition RPAR :: node where "RPAR = Cls [CChr 0x29, CChr 0xFF09]"
definition DASH :: node where "DASH = Cls [CChr 0x2D, CChr 0xFF0D]"

definition pat1 :: pattern where
  "pat1 = grp ''zh'' ZH @ [ws_star, LPAR, ws_star] @ grp ''en'' EN
          @ [Alt [ws_star, Lit 0x3B, ws_star] [Lit 0xFF1B, ws_star]]
          @ grp ''abbr'' ABBR @ [ws_star, RPAR]"

definition pat2 :: pattern where
  "pat2 = grp ''zh'' ZH @ [ws_star, LPAR, ws_star] @ grp ''en'' EN @ [ws_star, RPAR]"

definition pat3 :: pattern where
  "pat3 = grp ''en'' EN @ [ws_star, LPAR, ws_star] @ grp ''zh'' ZH @ [ws_star, RPAR]"

definition pat4 :: pattern where
  "pat4 = grp ''en'' EN @ [ws_star, DASH, ws_star] @ grp ''zh'' ZH"

definition pat5 :: pattern where
  "pat5 = grp ''zh'' ZH @ [ws_star, DASH, ws_star] @ grp ''en'' EN"

text \<open>\<open>m.group(g)\<close> for a group that took part in the match.\<close>

definition mark_at :: "rmatch \<Rightarrow> string \<Rightarrow> nat" where
  "mark_at m g = (case map_of (m_caps m) g of None \<Rightarrow> 0 | Some k \<Rightarrow> k)"

definition m_group :: "ustr \<Rightarrow> rmatch \<Rightarrow> string \<Rightarrow> ustr" where
  "m_group s m g =
     take (mark_at m (g @ ''>'') - mark_at m (g @ ''<''))
          (drop (m_start m + mark_at m (g @ ''<'')) s)"

text \<open>The two style tags, \<open>ZH(EN;ABBR)\<close> and \<open>ZH(EN)\<close>.\<close>

definition ZH_EN_ABBR :: ustr where
  "ZH_EN_ABBR = [0x5A, 0x48, 0x28, 0x45, 0x4E, 0x3B, 0x41, 0x42, 0x42, 0x52, 0x29]"

definition ZH_EN :: ustr where
  "ZH_EN = [0x5A, 0x48, 0x28, 0x45, 0x4E, 0x29]"

definition row_of ::
  "ustr \<Rightarrow> ustr \<Rightarrow> ustr \<Rightarrow> ustr \<Rightarrow> term_row" where
  "row_of en zh ab style =
     \<lparr>en_canonical = en, zh_canonical = zh, abbr = ab, first_mention_style = style,
      variant = []\<rparr>"

text \<open>The loop over the matches of pattern 1, and the loop shared by the others.\<close>

definition pairs_abbr :: "pattern \<Rightarrow> ustr \<Rightarrow> term_row list" where
  "pairs_abbr p full_text =
     map (\<lambda>m. row_of (collapse_ws (strip (m_group full_text m ''en'')))
                       (strip (m_group full_text m ''zh''))
                       (strip (m_group full_text m ''abbr'')) ZH_EN_ABBR)
         (finditer (=) p full_text)"

definition pairs_plain :: "pattern \<Rightarrow> ustr \<Rightarrow> term_row list" where
  "pairs_plain p full_text =
     map (\<lambda>m. row_of (collapse_ws (strip (m_group full_text m ''en'')))
                       (strip (m_group full_text m ''zh'')) [] ZH_EN)
         (finditer (=) p full_text)"

text \<open>
  \<open>parse_pdf_pairs\<close> of app_streamlit_auto_extract.py (five patterns); the column it
  adds after the loops holds one constant and is left out. \<open>parse_pdf_pairs3\<close> is the
  function of the same name in the other variants (three patterns), applied to the
  text of the document.
\<close>

definition all_pairs :: "ustr \<Rightarrow> term_row list" where
  "all_pairs full_text =
     pairs_abbr pat1 full_text @ pairs_plain pat2 full_text @ pairs_plain pat3 full_text
     @ pairs_plain pat4 full_text @ pairs_plain pat5 full_text"

definition parse_pdf_pairs :: "ustr \<Rightarrow> term_row list" where
  "parse_pdf_pairs full_text = drop_duplicates triple (all_pairs full_text)"

definition all_pairs3 :: "ustr \<Rightarrow> term_row list" where
  "all_pairs3 full_text =
     pairs_abbr pat1 full_text @ pairs_plain pat2 full_text @ pairs_plain pat3 full_text"

definition parse_pdf_pairs3 :: "ustr \<Rightarrow> term_row list" where
  "parse_pdf_pairs3 full_text = drop_duplicates triple (all_pairs3 full_text)"

section \<open>Term table normalization\<close>

text \<open>
  A \<open>DataFrame\<close>: its column labels in order, and its rows. A row gives the cell of
  every label; only the cells of the frame's own columns are ever read. The five
  columns of \<open>REQUIRED_COLS\<close> have labels of their own.
\<close>

datatype col = EnCol | ZhCol | AbbrCol | StyleCol | VariantCol | OtherCol ustr

record 'v frame =
  columns :: "col list"
  rows :: "(col \<Rightarrow> 'v cell) list"

definition REQUIRED_COLS :: "col list" where
  "REQUIRED_COLS = [EnCol, ZhCol, AbbrCol, StyleCol, VariantCol]"

definition empty_frame :: "'v frame" where
  "empty_frame = \<lparr>columns = REQUIRED_COLS, rows = []\<rparr>"

text \<open>\<open>df.empty\<close>: no column or no row.\<close>

definition df_empty :: "'v frame \<Rightarrow> bool" where
  "df_empty df \<longleftrightarrow> columns df = [] \<or> rows df = []"

text \<open>
  \<open>.astype(str).fillna("")\<close> on one cell: a string stays, any other value becomes the
  string \<open>py_str\<close> gives it (\<open>str\<close> of the library, not part of the repository).
\<close>

definition astype_str :: "('v \<Rightarrow> ustr) \<Rightarrow> 'v cell \<Rightarrow> ustr" where
  "astype_str py_str c = (case c of Str s \<Rightarrow> s | NonStr v \<Rightarrow> py_str v)"

text \<open>
  One round of the loop \<open>for c in REQUIRED_COLS\<close>: add the column with empty strings
  when the frame lacks it, then make every cell of it a stripped string.
\<close>

definition add_missing :: "col \<Rightarrow> 'v frame \<Rightarrow> 'v frame" where
  "add_missing c df =
     (if c \<in> set (columns df) then df
      else df\<lparr>columns := columns df @ [c], rows := map (\<lambda>r. r(c := Str [])) (rows df)\<rparr>)"

definition strip_col :: "('v \<Rightarrow> ustr) \<Rightarrow> col \<Rightarrow> 'v frame \<Rightarrow> 'v frame" where
  "strip_col py_str c df =
     df\<lparr>rows := map (\<lambda>r. r(c := Str (strip (astype_str py_str (r c))))) (rows df)\<rparr>"

definition std_col :: "('v \<Rightarrow> ustr) \<Rightarrow> 'v frame \<Rightarrow> col \<Rightarrow> 'v frame" where
  "std_col py_str df c = strip_col py_str c (add_missing c df)"

text \<open>\<open>df.loc[df["first_mention_style"]=="", "first_mention_style"] = "ZH(EN;ABBR)"\<close>\<close>

definition fill_style :: "'v frame \<Rightarrow> 'v frame" where
  "fill_style df =
     df\<lparr>rows := map (\<lambda>r. if r StyleCol = Str [] then r(StyleCol := Str ZH_EN_ABBR) else r)
                     (rows df)\<rparr>"

definition key3 :: "(col \<Rightarrow> 'v cell) \<Rightarrow> 'v cell \<times> 'v cell \<times> 'v cell" where
  "key3 r = (r EnCol, r ZhCol, r AbbrCol)"

definition dedup_rows :: "'v frame \<Rightarrow> 'v frame" where
  "dedup_rows df = df\<lparr>rows := drop_duplicates key3 (rows df)\<rparr>"

text \<open>\<open>df[cols]\<close>: the frame of these columns only.\<close>

definition select_cols :: "col list \<Rightarrow> 'v frame \<Rightarrow> 'v frame" where
  "select_cols cols df =
     \<lparr>columns = cols, rows = map (\<lambda>r c. if c \<in> set cols then r c else Str []) (rows df)\<rparr>"

text \<open>
  \<open>standardize_master\<close> (app_streamlit_super.py and the other variants with five
  columns); the argument is \<open>None\<close> or a frame.
\<close>

definition standardize_master :: "('v \<Rightarrow> ustr) \<Rightarrow> 'v frame option \<Rightarrow> 'v frame" where
  "standardize_master py_str df =
     (case df of
        None \<Rightarrow> empty_frame
      | Some d \<Rightarrow>
          if df_empty d then empty_frame
          else select_cols REQUIRED_COLS
                 (dedup_rows (fill_style (foldl (std_col py_str) d REQUIRED_COLS))))"

text \<open>
  Writing the table. \<open>write_master_to_ws\<close> normalizes, then replaces the content of
  the worksheet by the header and the rows; the result is the new content.
  \<open>save_local_master\<close> writes the frame it is given; \<open>save_combined\<close> is the sequence
  every caller runs: concatenate, normalize, write to the worksheet when there is one
  and to the local file otherwise.
\<close>

datatype 'v sheet_cell = Header col | Value "'v cell"

definition frame_values :: "'v frame \<Rightarrow> 'v sheet_cell list list" where
  "frame_values df =
     map Header (columns df) # map (\<lambda>r. map (\<lambda>c. Value (r c)) (columns df)) (rows df)"

definition write_master_to_ws :: "('v \<Rightarrow> ustr) \<Rightarrow> 'v frame \<Rightarrow> 'v sheet_cell list list" where
  "write_master_to_ws py_str df = frame_values (standardize_master py_str (Some df))"

definition save_local_master :: "'v frame \<Rightarrow> 'v sheet_cell list list" where
  "save_local_master df = frame_values df"

text \<open>
  \<open>pd.concat([a, b], ignore_index=True)\<close>: the columns of \<open>a\<close>, then those only
  \<open>b\<close> has; the rows of \<open>a\<close>, then those of \<open>b\<close>; a cell a frame has no column for is
  the missing value \<open>nan\<close>.
\<close>

definition pd_concat :: "'v \<Rightarrow> 'v frame \<Rightarrow> 'v frame \<Rightarrow> 'v frame" where
  "pd_concat nan a b =
     \<lparr>columns = columns a @ filter (\<lambda>c. c \<notin> set (columns a)) (columns b),
      rows = map (\<lambda>r c. if c \<in> set (columns a) then r c else NonStr nan) (rows a)
           @ map (\<lambda>r c. if c \<in> set (columns b) then r c else NonStr nan) (rows b)\<rparr>"

datatype 'v store = Worksheet "'v sheet_cell list list" | LocalCsv "'v sheet_cell list list"

definition save_combined ::
  "('v \<Rightarrow> ustr) \<Rightarrow> 'v \<Rightarrow> bool \<Rightarrow> 'v frame \<Rightarrow> 'v frame \<Rightarrow> 'v store" where
  "save_combined py_str nan have_ws termbase to_add =
     (let combined = standardize_master py_str (Some (pd_concat nan termbase to_add))
      in if have_ws then Worksheet (write_master_to_ws py_str combined)
         else LocalCsv (save_local_master combined))"

text \<open>The (English, Chinese, abbreviation) cells of the data rows of a written table.\<close>

definition written_triples :: "'v sheet_cell list list \<Rightarrow> 'v sheet_cell list list" where
  "written_triples vals = map (take 3) (tl vals)"

definition store_content :: "'v store \<Rightarrow> 'v sheet_cell list list" where
  "store_content st = (case st of Worksheet v \<Rightarrow> v | LocalCsv v \<Rightarrow> v)"

text \<open>
  The row that normalization makes of one row \<open>r\<close> of a frame with columns \<open>cols\<close>,
  for comparison with the loop: stripped strings in the five columns (the empty string
  for a column the frame lacks), the default style, nothing else.
\<close>

definition norm_row :: "('v \<Rightarrow> ustr) \<Rightarrow> col list \<Rightarrow> (col \<Rightarrow> 'v cell) \<Rightarrow> col \<Rightarrow> 'v cell" where
  "norm_row py_str cols r c =
     (if c \<in> set REQUIRED_COLS
      then Str (strip (if c \<in> set cols then astype_str py_str (r c) else []))
      else r c)"

definition final_row :: "('v \<Rightarrow> ustr) \<Rightarrow> col list \<Rightarrow> (col \<Rightarrow> 'v cell) \<Rightarrow> col \<Rightarrow> 'v cell" where
  "final_row py_str cols r c =
     (if c \<in> set REQUIRED_COLS
      then (if c = StyleCol \<and> norm_row py_str cols r StyleCol = Str [] then Str ZH_EN_ABBR
            else norm_row py_str cols r c)
      else Str [])"

section \<open>The diff engine\<close>





















section \<open>Reading the pages and scanning for known variants\<close>

text \<open>
  \<open>normalize_text\<close>: full-width punctuation to ASCII, the zero-width characters
  removed, whitespace runs collapsed.
\<close>

definition replace_char :: "cp \<Rightarrow> cp \<Rightarrow> ustr \<Rightarrow> ustr" where
  "replace_char a b s = map (\<lambda>c. if c = a then b else c) s"

definition ZERO_WIDTH :: "cp list" where
  "ZERO_WIDTH = [0x200B, 0x200C, 0x200D, 0xFEFF, 0xAD]"

definition normalize_text :: "ustr \<Rightarrow> ustr" where
  "normalize_text s =
     (if s = [] then []
      else collapse_ws
             (filter (\<lambda>c. c \<notin> set ZERO_WIDTH)
                (replace_char 0x3001 0x2F (replace_char 0x3002 0x2E (replace_char 0xFF0C 0x2C
                  (replace_char 0xFF1B 0x3B (replace_char 0xFF09 0x29
                     (replace_char 0xFF08 0x28 s))))))))"

text \<open>
  A page is what its \<open>extract_text()\<close> does: it raises, or returns \<open>None\<close> or a
  string. \<open>try: raw = page.extract_text() or "" / except: raw = ""\<close> is
  \<open>raw_text\<close>.
\<close>

datatype exn = TypeError | KeyError | IndexError | AttributeError | Exn ustr

type_synonym pdf_page = "exn + ustr option"

definition raw_text :: "pdf_page \<Rightarrow> ustr" where
  "raw_text page =
     (case page of
        Inl e \<Rightarrow> []
      | Inr None \<Rightarrow> []
      | Inr (Some t) \<Rightarrow> t)"

text \<open>The slice \<open>s[lo:hi]\<close> for \<open>0 \<le> lo\<close>; \<open>max(0, a - b)\<close> is the subtraction of naturals.\<close>

definition slice :: "ustr \<Rightarrow> nat \<Rightarrow> nat \<Rightarrow> ustr" where
  "slice s lo hi = take (hi - lo) (drop lo s)"

record hit =
  h_page :: nat
  h_variant :: ustr
  h_row :: term_row
  h_context :: ustr

text \<open>
  \<open>scan\<close> (pdf_spellcheck.py). The patterns are compiled with \<open>re.IGNORECASE\<close>.
  Opening the document may raise; that error is not caught.
\<close>

definition page_hits ::
  "(cp \<Rightarrow> cp \<Rightarrow> bool) \<Rightarrow> (pattern \<times> ustr \<times> term_row) list \<Rightarrow> nat \<Rightarrow> ustr \<Rightarrow> hit list" where
  "page_hits cf pats pno norm =
     concat (map (\<lambda>(rx, v, row).
                    map (\<lambda>m. \<lparr>h_page = pno, h_variant = v, h_row = row,
                               h_context = slice norm (m_start m - 60) (m_end m + 60)\<rparr>)
                        (finditer (ieq cf) rx norm)) pats)"

fun scan_pages ::
  "(cp \<Rightarrow> cp \<Rightarrow> bool) \<Rightarrow> (pattern \<times> ustr \<times> term_row) list \<Rightarrow> nat \<Rightarrow> pdf_page list \<Rightarrow> hit list" where
  "scan_pages cf pats pno [] = []"
| "scan_pages cf pats pno (page # pages) =
     page_hits cf pats pno (normalize_text (raw_text page)) @ scan_pages cf pats (Suc pno) pages"

definition scan ::
  "(cp \<Rightarrow> cp \<Rightarrow> bool) \<Rightarrow> exn + pdf_page list \<Rightarrow> (pattern \<times> ustr \<times> term_row) list \<Rightarrow> exn + hit list" where
  "scan cf reader pats =
     (case reader of
        Inl e \<Rightarrow> Inl e
      | Inr pages \<Rightarrow> Inr (scan_pages cf pats 1 pages))"

text \<open>
  The loop that fills \<open>pages_text\<close> (app_streamlit_super.py), with the OCR fallback:
  \<open>ocr pno\<close> is what converting and recognizing page \<open>pno\<close> does, an exception, no
  image, or the recognized text.
\<close>

record ocr_options =
  ocr_enabled :: bool
  ocr_thresh :: nat
  HAVE_OCR :: bool

definition page_text :: "ocr_options \<Rightarrow> (nat \<Rightarrow> exn + ustr option) \<Rightarrow> nat \<Rightarrow> pdf_page \<Rightarrow> ustr" where
  "page_text opts ocr pno page =
     (let norm = normalize_text (raw_text page)
      in if ocr_enabled opts \<and> length norm < ocr_thresh opts \<and> HAVE_OCR opts
         then (case ocr pno of
                 Inl e \<Rightarrow> norm
               | Inr None \<Rightarrow> norm
               | Inr (Some txt) \<Rightarrow> normalize_text txt)
         else norm)"

fun pages_text_from ::
  "ocr_options \<Rightarrow> (nat \<Rightarrow> exn + ustr option) \<Rightarrow> nat \<Rightarrow> pdf_page list \<Rightarrow> ustr list" where
  "pages_text_from opts ocr pno [] = []"
| "pages_text_from opts ocr pno (page # pages) =
     page_text opts ocr pno page # pages_text_from opts ocr (Suc pno) pages"

definition pages_text :: "ocr_options \<Rightarrow> (nat \<Rightarrow> exn + ustr option) \<Rightarrow> pdf_page list \<Rightarrow> ustr list" where
  "pages_text opts ocr pages = pages_text_from opts ocr 1 pages"

text \<open>
  \<open>parse_pdf_pairs\<close> of app_streamlit_gsheets.py takes the document: it joins the
  normalized texts of the pages with newlines and runs the three patterns.
\<close>

fun join_lines :: "ustr list \<Rightarrow> ustr" where
  "join_lines [] = []"
| "join_lines [t] = t"
| "join_lines (t # ts) = t @ 0x0A # join_lines ts"

definition parse_pdf_pairs_pages :: "pdf_page list \<Rightarrow> term_row list" where
  "parse_pdf_pairs_pages pages =
     parse_pdf_pairs3 (join_lines (map (\<lambda>p. normalize_text (raw_text p)) pages))"

section \<open>Unknown-term candidates\<close>

text \<open>
  \<open>en_tokens\<close>: \<open>re.findall\<close> of a word \<open>[A-Za-z][A-Za-z0-9\-]*\<close> followed by up to
  three more words, each after whitespace. The greedy \<open>{0,3}\<close> of the group is three
  nested optional groups.
\<close>

definition WORD :: pattern where
  "WORD = [Cls LETTER, Rep ALNUM_HYPHEN 0 None]"

definition EN_TOKEN :: pattern where
  "EN_TOKEN =
     WORD @ [Alt (ws_plus # WORD @ [Alt (ws_plus # WORD @ [Alt (ws_plus # WORD) []]) []]) []]"

definition en_tokens :: "ustr \<Rightarrow> ustr list" where
  "en_tokens txt = map (\<lambda>m. slice txt (m_start m) (m_end m)) (finditer (=) EN_TOKEN txt)"

text \<open>
  \<open>cjk_tokens\<close>: the substrings of length \<open>min_len\<close> to \<open>max_len\<close> of the CJK
  characters of the text. The result is a set made a list; its order is not
  specified, here it is the order of first insertion.
\<close>

definition cjk_tokens_of :: "(cp \<Rightarrow> bool) \<Rightarrow> ustr \<Rightarrow> nat \<Rightarrow> nat \<Rightarrow> ustr list" where
  "cjk_tokens_of is_han txt min_len max_len =
     (let toks = filter is_han txt; n = length toks
      in remdups (concat (map (\<lambda>L. map (\<lambda>i. slice toks i (i + L)) [0 ..< n - L + 1])
                              [min_len ..< min (max_len + 1) (n + 1)])))"

text \<open>
  app_streamlit_super.py keeps the characters of \<open>is_cjk\<close>, app_streamlit_auto_plus.py
  those from U+4E00 to U+9FFF.
\<close>

definition cjk_tokens :: "ustr \<Rightarrow> nat \<Rightarrow> nat \<Rightarrow> ustr list" where
  "cjk_tokens txt min_len max_len = cjk_tokens_of is_cjk txt min_len max_len"

definition cjk_tokens_basic :: "ustr \<Rightarrow> nat \<Rightarrow> nat \<Rightarrow> ustr list" where
  "cjk_tokens_basic txt min_len max_len =
     cjk_tokens_of (\<lambda>ch. 0x4E00 \<le> ch \<and> ch \<le> 0x9FFF) txt min_len max_len"

datatype cand_type = UNKNOWN_EN | UNKNOWN_ZH

record 's candidate =
  cand_kind :: cand_type
  cand_text :: ustr
  suggest :: ustr
  score :: 's

text \<open>
  The parameters of the detection: \<open>str.lower\<close> and the fuzzy matcher
  (\<open>process.extractOne\<close> with \<open>fuzz.WRatio\<close>, and \<open>round(score, 1)\<close>) belong to
  libraries and are taken as given; \<open>HAVE_RF\<close> says whether the matcher was imported.
\<close>

record 's detector =
  lower :: "ustr \<Rightarrow> ustr"
  HAVE_RF :: bool
  extractOne :: "ustr \<Rightarrow> ustr list \<Rightarrow> (ustr \<times> 's) option"
  round1 :: "'s \<Rightarrow> 's"
  en_thresh :: 's
  zh_thresh :: 's

definition known_ens :: "'s detector \<Rightarrow> term_row list \<Rightarrow> ustr set" where
  "known_ens D master_df =
     set (map (lower D \<circ> en_canonical) master_df @ map (lower D \<circ> abbr) master_df)"

definition known_zhs :: "term_row list \<Rightarrow> ustr set" where
  "known_zhs master_df = set (map zh_canonical master_df)"

text \<open>The loop over the English tokens in app_streamlit_auto_plus.py.\<close>

fun en_loop :: "('s::{zero,linorder}) detector \<Rightarrow> term_row list \<Rightarrow> ustr list \<Rightarrow> 's candidate list" where
  "en_loop D master_df [] = []"
| "en_loop D master_df (tok # toks) =
     (let t = strip tok in
      if t = [] then en_loop D master_df toks
      else if lower D t \<in> known_ens D master_df then en_loop D master_df toks
      else if HAVE_RF D \<and> 0 < length master_df then
        (case extractOne D t (map en_canonical master_df @ map abbr master_df) of
           None \<Rightarrow> en_loop D master_df toks
         | Some match \<Rightarrow>
             if en_thresh D \<le> snd match
             then \<lparr>cand_kind = UNKNOWN_EN, cand_text = t, suggest = fst match,
                   score = round1 D (snd match)\<rparr> # en_loop D master_df toks
             else en_loop D master_df toks)
      else if 4 \<le> length t
        then \<lparr>cand_kind = UNKNOWN_EN, cand_text = t, suggest = [], score = 0\<rparr>
             # en_loop D master_df toks
        else en_loop D master_df toks)"

text \<open>The same loop in app_streamlit_super.py.\<close>

fun en_loop_super :: "('s::{zero,linorder}) detector \<Rightarrow> term_row list \<Rightarrow> ustr list \<Rightarrow> 's candidate list" where
  "en_loop_super D termbase [] = []"
| "en_loop_super D termbase (tok # toks) =
     (let t = strip tok in
      if t = [] \<or> lower D t \<in> known_ens D termbase then en_loop_super D termbase toks
      else
        let res = (if HAVE_RF D \<and> 0 < length termbase
                   then extractOne D t (map en_canonical termbase @ map abbr termbase)
                   else None);
            sg = (case res of None \<Rightarrow> [] | Some r \<Rightarrow> fst r);
            sc = (case res of None \<Rightarrow> 0 | Some r \<Rightarrow> snd r)
        in if \<not> HAVE_RF D \<and> length t < 4 then en_loop_super D termbase toks
           else if en_thresh D \<le> sc \<or> \<not> HAVE_RF D
             then \<lparr>cand_kind = UNKNOWN_EN, cand_text = t, suggest = sg, score = round1 D sc\<rparr>
                  # en_loop_super D termbase toks
             else en_loop_super D termbase toks)"

text \<open>The loops over the Chinese n-grams, in the same two files.\<close>

fun zh_loop :: "('s::{zero,linorder}) detector \<Rightarrow> term_row list \<Rightarrow> ustr list \<Rightarrow> 's candidate list" where
  "zh_loop D master_df [] = []"
| "zh_loop D master_df (gram # grams) =
     (if gram \<in> known_zhs master_df then zh_loop D master_df grams
      else if HAVE_RF D \<and> 0 < length master_df then
        (case extractOne D gram (map zh_canonical master_df) of
           None \<Rightarrow> zh_loop D master_df grams
         | Some match \<Rightarrow>
             if zh_thresh D \<le> snd match
             then \<lparr>cand_kind = UNKNOWN_ZH, cand_text = gram, suggest = fst match,
                   score = round1 D (snd match)\<rparr> # zh_loop D master_df grams
             else zh_loop D master_df grams)
      else \<lparr>cand_kind = UNKNOWN_ZH, cand_text = gram, suggest = [], score = 0\<rparr>
           # zh_loop D master_df grams)"

fun zh_loop_super :: "('s::{zero,linorder}) detector \<Rightarrow> term_row list \<Rightarrow> ustr list \<Rightarrow> 's candidate list" where
  "zh_loop_super D termbase [] = []"
| "zh_loop_super D termbase (gram # grams) =
     (if gram \<in> known_zhs termbase then zh_loop_super D termbase grams
      else
        let res = (if HAVE_RF D \<and> 0 < length termbase
                   then extractOne D gram (map zh_canonical termbase)
                   else None);
            sg = (case res of None \<Rightarrow> [] | Some r \<Rightarrow> fst r);
            sc = (case res of None \<Rightarrow> 0 | Some r \<Rightarrow> snd r)
        in if zh_thresh D \<le> sc \<or> \<not> HAVE_RF D
           then \<lparr>cand_kind = UNKNOWN_ZH, cand_text = gram, suggest = sg, score = round1 D sc\<rparr>
                # zh_loop_super D termbase grams
           else zh_loop_super D termbase grams)"

text \<open>
  The two detections on the text of the document; a set is iterated in an order that
  is not specified, here that of first occurrence.
\<close>

definition en_cands :: "('s::{zero,linorder}) detector \<Rightarrow> term_row list \<Rightarrow> ustr \<Rightarrow> 's candidate list" where
  "en_cands D master_df full_text = en_loop D master_df (remdups (en_tokens full_text))"

definition zh_cands :: "('s::{zero,linorder}) detector \<Rightarrow> term_row list \<Rightarrow> nat \<Rightarrow> ustr \<Rightarrow> 's candidate list" where
  "zh_cands D master_df zh_ngram_len full_text =
     zh_loop D master_df (remdups (cjk_tokens_basic full_text zh_ngram_len zh_ngram_len))"

definition en_cands_super :: "('s::{zero,linorder}) detector \<Rightarrow> term_row list \<Rightarrow> ustr \<Rightarrow> 's candidate list" where
  "en_cands_super D termbase full_text = en_loop_super D termbase (remdups (en_tokens full_text))"

definition zh_cands_super :: "('s::{zero,linorder}) detector \<Rightarrow> term_row list \<Rightarrow> nat \<Rightarrow> ustr \<Rightarrow> 's candidate list" where
  "zh_cands_super D termbase zh_ngram full_text =
     zh_loop_super D termbase (remdups (cjk_tokens full_text zh_ngram zh_ngram))"

section \<open>The consistency checker\<close>

text \<open>
  The pattern of a canonical English term: \<open>re.escape(en).replace('\-', '\s*-\s*')\<close>,
  a literal per character and flexible spacing around a hyphen.
\<close>

definition en_pattern :: "ustr \<Rightarrow> pattern" where
  "en_pattern en =
     concat (map (\<lambda>ch. if ch = HYPHEN then [ws_star, Lit HYPHEN, ws_star] else [Lit ch]) en)"

text \<open>
  \<open>en_pats\<close> and \<open>zh_pats\<close> of app_streamlit_plus.py: the rows with a non-blank
  term, each with the pattern of its stripped term. app_streamlit_super.py escapes the
  English term as it stands in the (normalized) table.
\<close>

definition en_pats :: "term_row list \<Rightarrow> (pattern \<times> term_row) list" where
  "en_pats term_df =
     map (\<lambda>row. (en_pattern (strip (en_canonical row)), row))
         (filter (\<lambda>row. strip (en_canonical row) \<noteq> []) term_df)"

definition en_pats_super :: "term_row list \<Rightarrow> (pattern \<times> term_row) list" where
  "en_pats_super termbase =
     map (\<lambda>row. (en_pattern (en_canonical row), row))
         (filter (\<lambda>row. strip (en_canonical row) \<noteq> []) termbase)"

definition zh_pats :: "term_row list \<Rightarrow> (pattern \<times> term_row) list" where
  "zh_pats term_df =
     map (\<lambda>row. (cjk_pat (zh_canonical row), row))
         (filter (\<lambda>row. strip (zh_canonical row) \<noteq> []) term_df)"

text \<open>
  The hits of a list of patterns on one page: start, end and row of every match, the
  patterns in order. All patterns are compiled with \<open>re.I\<close>.
\<close>

type_synonym term_hit = "nat \<times> nat \<times> term_row"

definition locate_hits ::
  "(cp \<Rightarrow> cp \<Rightarrow> bool) \<Rightarrow> (pattern \<times> term_row) list \<Rightarrow> ustr \<Rightarrow> term_hit list" where
  "locate_hits cf pats norm =
     concat (map (\<lambda>(rx, row). map (\<lambda>m. (m_start m, m_end m, row)) (finditer (ieq cf) rx norm))
                 pats)"

text \<open>\<open>abs(zs - es) <= window\<close>\<close>

definition near :: "nat \<Rightarrow> nat \<Rightarrow> nat \<Rightarrow> bool" where
  "near window zs es \<longleftrightarrow> \<bar>int zs - int es\<bar> \<le> int window"

datatype issue_type = MISSING_OR_WRONG_ZH | FIRST_MENTION_MISSING_ZH

record issue =
  i_type :: issue_type
  i_page :: nat
  i_en :: ustr
  expected_zh :: ustr
  i_abbr :: "ustr option"
  i_context :: ustr
  i_ocr :: "bool option"

text \<open>
  The search for the expected Chinese term around one English hit: the loop with
  \<open>break\<close> of the pair check, and the \<open>any(...)\<close> of the first-mention check.
\<close>

fun found_pair :: "nat \<Rightarrow> nat \<Rightarrow> ustr \<Rightarrow> term_hit list \<Rightarrow> bool" where
  "found_pair window es expected [] = False"
| "found_pair window es expected ((zs, ze, zrow) # zh_hits) =
     (if near window zs es
      then (if zh_canonical zrow = expected then True
            else found_pair window es expected zh_hits)
      else found_pair window es expected zh_hits)"

definition has_zh_near :: "nat \<Rightarrow> nat \<Rightarrow> ustr \<Rightarrow> term_hit list \<Rightarrow> bool" where
  "has_zh_near window es expected zh_hits =
     list_ex (\<lambda>(zs, ze, zrow). near window zs es \<and> zh_canonical zrow = expected) zh_hits"

text \<open>The pair check of one page: the issues it appends to \<open>pair_issues\<close>.\<close>

fun pair_loop ::
  "nat \<Rightarrow> nat \<Rightarrow> ustr \<Rightarrow> bool option \<Rightarrow> term_hit list \<Rightarrow> term_hit list \<Rightarrow> issue list" where
  "pair_loop window pno norm ocr zh_hits [] = []"
| "pair_loop window pno norm ocr zh_hits ((es, ee, erow) # en_hits) =
     (if found_pair window es (zh_canonical erow) zh_hits
      then pair_loop window pno norm ocr zh_hits en_hits
      else \<lparr>i_type = MISSING_OR_WRONG_ZH, i_page = pno, i_en = en_canonical erow,
            expected_zh = zh_canonical erow, i_abbr = None,
            i_context = slice norm (es - window) (ee + window), i_ocr = ocr\<rparr>
           # pair_loop window pno norm ocr zh_hits en_hits)"

text \<open>
  The first-mention check of one page, with the set \<open>seen_terms\<close> that lives across
  pages: the new set and the issues appended to \<open>first_mentions\<close>.
  \<open>str.lower\<close> and \<open>str.upper\<close> belong to the library.
\<close>

definition ZH_PAREN :: ustr where
  "ZH_PAREN = [0x5A, 0x48, 0x28]"

definition startswith :: "ustr \<Rightarrow> ustr \<Rightarrow> bool" where
  "startswith s pre \<longleftrightarrow> take (length pre) s = pre"

record casing =
  str_lower :: "ustr \<Rightarrow> ustr"
  str_upper :: "ustr \<Rightarrow> ustr"
  case_pair :: "cp \<Rightarrow> cp \<Rightarrow> bool"

fun first_loop ::
  "casing \<Rightarrow> nat \<Rightarrow> nat \<Rightarrow> ustr \<Rightarrow> bool option \<Rightarrow> term_hit list \<Rightarrow> ustr set \<Rightarrow> term_hit list
   \<Rightarrow> ustr set \<times> issue list" where
  "first_loop U window pno norm ocr zh_hits seen_terms [] = (seen_terms, [])"
| "first_loop U window pno norm ocr zh_hits seen_terms ((es, ee, erow) # en_hits) =
     (let key = str_lower U (en_canonical erow) in
      if key \<notin> seen_terms then
        (let rest = first_loop U window pno norm ocr zh_hits (insert key seen_terms) en_hits
         in if startswith (str_upper U (first_mention_style erow)) ZH_PAREN
               \<and> \<not> has_zh_near window es (zh_canonical erow) zh_hits
            then (fst rest,
                  \<lparr>i_type = FIRST_MENTION_MISSING_ZH, i_page = pno, i_en = en_canonical erow,
                    expected_zh = zh_canonical erow, i_abbr = Some (abbr erow),
                    i_context = slice norm (es - window) (ee + window), i_ocr = ocr\<rparr>
                  # snd rest)
            else rest)
      else first_loop U window pno norm ocr zh_hits seen_terms en_hits)"

text \<open>
  The loop over the pages in app_streamlit_plus.py, for the two checks: a page is its
  normalized text and whether OCR produced it. The state is \<open>pair_issues\<close>,
  \<open>first_mentions\<close> and \<open>seen_terms\<close>.
\<close>

record check_options =
  check_pair :: bool
  check_first :: bool
  window :: nat

record check_state =
  pair_issues :: "issue list"
  first_mentions :: "issue list"
  seen_terms :: "ustr set"

definition check_page ::
  "casing \<Rightarrow> check_options \<Rightarrow> term_row list \<Rightarrow> nat \<Rightarrow> ustr \<times> bool \<Rightarrow> check_state \<Rightarrow> check_state" where
  "check_page U opts term_df pno page st =
     (if check_pair opts \<or> check_first opts then
        (let norm = fst page; ocr = Some (snd page);
             en_hits = locate_hits (case_pair U) (en_pats term_df) norm;
             zh_hits = locate_hits (case_pair U) (zh_pats term_df) norm;
             st1 = (if check_pair opts
                    then st\<lparr>pair_issues := pair_issues st
                              @ pair_loop (window opts) pno norm ocr zh_hits en_hits\<rparr>
                    else st)
         in if check_first opts
            then (let r = first_loop U (window opts) pno norm ocr zh_hits (seen_terms st1) en_hits
                  in st1\<lparr>first_mentions := first_mentions st1 @ snd r, seen_terms := fst r\<rparr>)
            else st1)
      else st)"

fun check_pages ::
  "casing \<Rightarrow> check_options \<Rightarrow> term_row list \<Rightarrow> nat \<Rightarrow> (ustr \<times> bool) list \<Rightarrow> check_state
   \<Rightarrow> check_state" where
  "check_pages U opts term_df pno [] st = st"
| "check_pages U opts term_df pno (page # pages) st =
     check_pages U opts term_df (Suc pno) pages (check_page U opts term_df pno page st)"

definition check_document ::
  "casing \<Rightarrow> check_options \<Rightarrow> term_row list \<Rightarrow> (ustr \<times> bool) list \<Rightarrow> check_state" where
  "check_document U opts term_df pages =
     check_pages U opts term_df 1 pages
       \<lparr>pair_issues = [], first_mentions = [], seen_terms = {}\<rparr>"

text \<open>
  The pair check of app_streamlit_super.py, over the texts of \<open>pages_text\<close>.
\<close>

fun pair_issues_super ::
  "casing \<Rightarrow> nat \<Rightarrow> term_row list \<Rightarrow> nat \<Rightarrow> ustr list \<Rightarrow> issue list" where
  "pair_issues_super U w termbase pno [] = []"
| "pair_issues_super U w termbase pno (txt # texts) =
     pair_loop w pno txt None (locate_hits (case_pair U) (zh_pats termbase) txt)
       (locate_hits (case_pair U) (en_pats_super termbase) txt)
     @ pair_issues_super U w termbase (Suc pno) texts"

text \<open>
  The first-mention check of app_streamlit_super.py. Its loop takes the rows of
  \<open>en_pats\<close>, which are the rows of the table, and computes the key as
  \<open>row[1]["en_canonical"].lower()\<close>: \<open>row[1]\<close> is the second value of the row, a
  string, and a string cannot be indexed by a string.
\<close>

definition series_getitem_int :: "term_row \<Rightarrow> nat \<Rightarrow> exn + ustr" where
  "series_getitem_int row i =
     (if i = 0 then Inr (en_canonical row)
      else if i = 1 then Inr (zh_canonical row)
      else if i = 2 then Inr (abbr row)
      else if i = 3 then Inr (first_mention_style row)
      else if i = 4 then Inr (variant row)
      else Inl IndexError)"

definition str_getitem_str :: "ustr \<Rightarrow> ustr \<Rightarrow> exn + ustr" where
  "str_getitem_str s k = Inl TypeError"

definition EN_CANONICAL :: ustr where
  "EN_CANONICAL = [0x65, 0x6E, 0x5F, 0x63, 0x61, 0x6E, 0x6F, 0x6E, 0x69, 0x63, 0x61, 0x6C]"

definition super_key :: "casing \<Rightarrow> term_row \<Rightarrow> exn + ustr" where
  "super_key U row =
     (case series_getitem_int row 1 of
        Inl e \<Rightarrow> Inl e
      | Inr v \<Rightarrow>
          (case str_getitem_str v EN_CANONICAL of
             Inl e \<Rightarrow> Inl e
           | Inr s \<Rightarrow> Inr (str_lower U s)))"

text \<open>
  After the key, the loop would read \<open>row[1].get("first_mention_style", ...)\<close>, and a
  string has no \<open>get\<close>.
\<close>

fun first_loop_super ::
  "casing \<Rightarrow> nat \<Rightarrow> nat \<Rightarrow> ustr \<Rightarrow> term_hit list \<Rightarrow> ustr set \<Rightarrow> term_hit list
   \<Rightarrow> exn + ustr set \<times> issue list" where
  "first_loop_super U w pno txt zh_hits seen [] = Inr (seen, [])"
| "first_loop_super U w pno txt zh_hits seen ((ms, me, row) # en_hits) =
     (case super_key U row of
        Inl e \<Rightarrow> Inl e
      | Inr key \<Rightarrow>
          if key \<in> seen then first_loop_super U w pno txt zh_hits seen en_hits
          else (case series_getitem_int row 1 of
                  Inl e \<Rightarrow> Inl e
                | Inr v \<Rightarrow> Inl AttributeError))"

fun first_mentions_super ::
  "casing \<Rightarrow> nat \<Rightarrow> term_row list \<Rightarrow> nat \<Rightarrow> ustr list \<Rightarrow> ustr set \<Rightarrow> exn + issue list" where
  "first_mentions_super U w termbase pno [] seen = Inr []"
| "first_mentions_super U w termbase pno (txt # texts) seen =
     (case first_loop_super U w pno txt
             (locate_hits (case_pair U) (zh_pats termbase) txt) seen
             (locate_hits (case_pair U) (en_pats_super termbase) txt) of
        Inl e \<Rightarrow> Inl e
      | Inr r \<Rightarrow>
          (case first_mentions_super U w termbase (Suc pno) texts (fst r) of
             Inl e \<Rightarrow> Inl e
           | Inr later \<Rightarrow> Inr (snd r @ later)))"

text \<open>
  For the statements about the checks. \<open>zh_located cf w norm zh es\<close>: the scanner
  locates the Chinese term \<open>zh\<close> on the page, by the matches of its fuzzy pattern,
  at a start within \<open>w\<close> characters of \<open>es\<close>; a blank term is never located.
  \<open>missing_issue\<close> and \<open>first_issue\<close> are the records of the two checks for one
  English hit.
\<close>

definition zh_located :: "(cp \<Rightarrow> cp \<Rightarrow> bool) \<Rightarrow> nat \<Rightarrow> ustr \<Rightarrow> ustr \<Rightarrow> nat \<Rightarrow> bool" where
  "zh_located cf w norm zh es \<longleftrightarrow>
     strip zh \<noteq> [] \<and> list_ex (\<lambda>m. near w (m_start m) es) (finditer (ieq cf) (cjk_pat zh) norm)"

definition missing_issue :: "nat \<Rightarrow> nat \<Rightarrow> ustr \<Rightarrow> bool option \<Rightarrow> term_hit \<Rightarrow> issue" where
  "missing_issue w pno norm ocr h =
     \<lparr>i_type = MISSING_OR_WRONG_ZH, i_page = pno, i_en = en_canonical (snd (snd h)),
      expected_zh = zh_canonical (snd (snd h)), i_abbr = None,
      i_context = slice norm (fst h - w) (fst (snd h) + w), i_ocr = ocr\<rparr>"

definition first_issue :: "nat \<Rightarrow> nat \<Rightarrow> ustr \<Rightarrow> bool option \<Rightarrow> term_hit \<Rightarrow> issue" where
  "first_issue w pno norm ocr h =
     \<lparr>i_type = FIRST_MENTION_MISSING_ZH, i_page = pno, i_en = en_canonical (snd (snd h)),
      expected_zh = zh_canonical (snd (snd h)), i_abbr = Some (abbr (snd (snd h))),
      i_context = slice norm (fst h - w) (fst (snd h) + w), i_ocr = ocr\<rparr>"

text \<open>
  The key of an English hit in \<open>seen_terms\<close>, and whether the style of its row
  (upper-cased) starts with \<open>ZH(\<close>.
\<close>

definition mention_key :: "casing \<Rightarrow> term_hit \<Rightarrow> ustr" where
  "mention_key U h = str_lower U (en_canonical (snd (snd h)))"

definition zh_style :: "casing \<Rightarrow> term_hit \<Rightarrow> bool" where
  "zh_style U h = startswith (str_upper U (first_mention_style (snd (snd h)))) ZH_PAREN"

section \<open>Loading the term table\<close>

text \<open>
  The frame \<open>read_csv\<close> returns: the labels of the header line, which are strings, and
  the rows. A field with text is a string; an empty field is the missing value
  \<open>nan\<close>, a float; a column of numbers holds numbers.
\<close>

record 'v csv_frame =
  csv_columns :: "ustr list"
  csv_rows :: "(ustr \<Rightarrow> 'v cell) list"

text \<open>
  \<open>normalize_header\<close> on a string: strip, full-width parentheses to ASCII, whitespace
  runs to one space, lower case.
\<close>

definition normalize_header :: "casing \<Rightarrow> ustr \<Rightarrow> ustr" where
  "normalize_header U h =
     str_lower U (collapse_ws (replace_char 0xFF09 0x29 (replace_char 0xFF08 0x28 (strip h))))"

text \<open>
  \<open>ALIASES\<close> of pdf_spellcheck.py, in the order of the dictionary; the strings are
  written as code points.
\<close>

definition ALIASES :: "(col \<times> ustr list) list" where
  "ALIASES =
     [(EnCol,
       [[0x65, 0x6E, 0x5F, 0x63, 0x61, 0x6E, 0x6F, 0x6E, 0x69, 0x63, 0x61, 0x6C],
        [0x65, 0x6E, 0x67, 0x6C, 0x69, 0x73, 0x68],
        [0x65, 0x6E],
        [0x74, 0x65, 0x72, 0x6D, 0x5F, 0x65, 0x6E],
        [0x63, 0x61, 0x6E, 0x6F, 0x6E, 0x69, 0x63, 0x61, 0x6C, 0x5F, 0x65, 0x6E],
        [0x6A19, 0x6E96, 0x82F1, 0x6587],
        [0x82F1, 0x6587]]),
      (ZhCol,
       [[0x7A, 0x68, 0x5F, 0x63, 0x61, 0x6E, 0x6F, 0x6E, 0x69, 0x63, 0x61, 0x6C],
        [0x63, 0x68, 0x69, 0x6E, 0x65, 0x73, 0x65],
        [0x7A, 0x68],
        [0x74, 0x65, 0x72, 0x6D, 0x5F, 0x7A, 0x68],
        [0x63, 0x61, 0x6E, 0x6F, 0x6E, 0x69, 0x63, 0x61, 0x6C, 0x5F, 0x7A, 0x68],
        [0x6A19, 0x6E96, 0x4E2D, 0x6587],
        [0x4E2D, 0x6587],
        [0x7E41, 0x9AD4, 0x4E2D, 0x6587]]),
      (AbbrCol,
       [[0x61, 0x62, 0x62, 0x72],
        [0x61, 0x62, 0x62, 0x72, 0x65, 0x76, 0x69, 0x61, 0x74, 0x69, 0x6F, 0x6E],
        [0x7E2E, 0x5BEB]]),
      (StyleCol,
       [[0x66, 0x69, 0x72, 0x73, 0x74, 0x5F, 0x6D, 0x65, 0x6E, 0x74, 0x69, 0x6F, 0x6E, 0x5F, 0x73, 0x74, 0x79, 0x6C, 0x65],
        [0x73, 0x74, 0x79, 0x6C, 0x65],
        [0x9996, 0x6B21, 0x986F, 0x793A, 0x898F, 0x5247],
        [0x66, 0x69, 0x72, 0x73, 0x74, 0x2D, 0x6D, 0x65, 0x6E, 0x74, 0x69, 0x6F, 0x6E]]),
      (VariantCol,
       [[0x76, 0x61, 0x72, 0x69, 0x61, 0x6E, 0x74, 0x20, 0x28, 0x932F, 0x8AA4, 0x7528, 0x6CD5, 0x29],
        [0x76, 0x61, 0x72, 0x69, 0x61, 0x6E, 0x74],
        [0x76, 0x61, 0x72, 0x69, 0x61, 0x6E, 0x74, 0x73],
        [0x932F, 0x8AA4, 0x7528, 0x6CD5],
        [0x932F, 0x5B57],
        [0x74, 0x79, 0x70, 0x6F],
        [0x6D, 0x69, 0x73, 0x73, 0x70, 0x65, 0x6C, 0x6C, 0x69, 0x6E, 0x67]])]"

text \<open>
  \<open>found\<close> maps a normalized label to the label itself; of two labels with the same
  normal form the later one stays. \<open>mapping\<close> gives a canonical column the label found
  for the first of its aliases that is in \<open>found\<close>.
\<close>

definition found :: "casing \<Rightarrow> ustr list \<Rightarrow> ustr \<Rightarrow> ustr option" where
  "found U cols = map_of (rev (map (\<lambda>c. (normalize_header U c, c)) cols))"

definition first_alias :: "casing \<Rightarrow> ustr list \<Rightarrow> ustr list \<Rightarrow> ustr option" where
  "first_alias U cols alist =
     (case filter (\<lambda>a. found U cols (normalize_header U a) \<noteq> None) alist of
        [] \<Rightarrow> None
      | a # _ \<Rightarrow> found U cols (normalize_header U a))"

definition header_mapping :: "casing \<Rightarrow> ustr list \<Rightarrow> col \<Rightarrow> ustr option" where
  "header_mapping U cols required =
     (case map_of ALIASES required of
        None \<Rightarrow> None
      | Some alist \<Rightarrow> first_alias U cols alist)"

text \<open>
  \<open>out[c] = value\<close> on the frame being built. A scalar fills the rows the frame has,
  none when it has none yet. A column of values gives the frame its rows when it had
  none: the columns set before are then filled with the missing value.
\<close>

definition set_scalar :: "col \<Rightarrow> ustr \<Rightarrow> 'v frame \<Rightarrow> 'v frame" where
  "set_scalar c s out =
     out\<lparr>columns := columns out @ [c], rows := map (\<lambda>r. r(c := Str s)) (rows out)\<rparr>"

definition set_series :: "'v \<Rightarrow> col \<Rightarrow> 'v cell list \<Rightarrow> 'v frame \<Rightarrow> 'v frame" where
  "set_series nan c vals out =
     out\<lparr>columns := columns out @ [c],
         rows := (if rows out = [] then map (\<lambda>v. (\<lambda>c'. NonStr nan)(c := v)) vals
                  else map (\<lambda>(r, v). r(c := v)) (zip (rows out) vals))\<rparr>"

text \<open>
  One column of \<open>map_headers\<close>: the column of the file under the mapped label, every
  cell made a string by \<open>astype(str)\<close>, or the default when no label is mapped.
\<close>

definition put_col ::
  "('v \<Rightarrow> ustr) \<Rightarrow> 'v \<Rightarrow> 'v csv_frame \<Rightarrow> (col \<Rightarrow> ustr option) \<Rightarrow> ustr \<Rightarrow> 'v frame \<Rightarrow> col
   \<Rightarrow> 'v frame" where
  "put_col py_str nan df mapping dflt out c =
     (case mapping c of
        Some label \<Rightarrow>
          set_series nan c (map (\<lambda>r. Str (astype_str py_str (r label))) (csv_rows df)) out
      | None \<Rightarrow> set_scalar c dflt out)"

datatype warning = MissingColumn col | AbbrFilled | StyleFilled

definition map_headers ::
  "casing \<Rightarrow> ('v \<Rightarrow> ustr) \<Rightarrow> 'v \<Rightarrow> 'v csv_frame
   \<Rightarrow> 'v frame \<times> (col \<Rightarrow> ustr option) \<times> warning list" where
  "map_headers U py_str nan df =
     (let mapping = header_mapping U (csv_columns df);
          essential = foldl (put_col py_str nan df mapping [])
                        \<lparr>columns = [], rows = []\<rparr> [EnCol, ZhCol, VariantCol];
          with_abbr = put_col py_str nan df mapping [] essential AbbrCol;
          out = put_col py_str nan df mapping ZH_EN_ABBR with_abbr StyleCol
      in (out, mapping,
          map MissingColumn (filter (\<lambda>c. mapping c = None) [EnCol, ZhCol, VariantCol])
          @ (if mapping AbbrCol = None then [AbbrFilled] else [])
          @ (if mapping StyleCol = None then [StyleFilled] else [])))"

text \<open>
  \<open>load_patterns\<close> (pdf_spellcheck.py), from the frame \<open>read_csv\<close> returned: one
  pattern, compiled with \<open>re.IGNORECASE\<close>, per entry of
  \<open>split_variants(str(row[...]))\<close> of each row, with the entry and the row.
\<close>

definition load_patterns ::
  "casing \<Rightarrow> ('v \<Rightarrow> ustr) \<Rightarrow> 'v \<Rightarrow> 'v csv_frame
   \<Rightarrow> (pattern \<times> ustr \<times> (col \<Rightarrow> 'v cell)) list \<times> warning list \<times> (col \<Rightarrow> ustr option)" where
  "load_patterns U py_str nan raw =
     (case map_headers U py_str nan raw of
        (df, mapping, warnings) \<Rightarrow>
          (concat (map (\<lambda>row. map (\<lambda>v. (cjk_fuzzy_pattern v, v, row))
                                   (split_variants
                                      (Str (astype_str py_str (row VariantCol)) :: 'v cell)))
                       (rows df)),
           warnings, mapping))"

section \<open>Test inputs\<close>

text \<open>
  \<open>spaced T wss\<close> is the token \<open>T\<close> with the strings of \<open>wss\<close> inserted after its
  characters, the first after the first character and so on; a missing entry inserts
  nothing.
\<close>

fun spaced :: "ustr \<Rightarrow> ustr list \<Rightarrow> ustr" where
  "spaced [] wss = []"
| "spaced (c # cs) [] = c # spaced cs []"
| "spaced (c # cs) (w # wss) = c # w @ spaced cs wss"

text \<open>
  A detector without the fuzzy matcher, with the lower case of ASCII letters for
  \<open>str.lower\<close>, and a text with a word of three letters, one of four and four CJK
  characters: \<open>abc, abcd;\<close> U+8166 U+4E2D U+98A8 U+4E59.
\<close>

definition ascii_lower :: "ustr \<Rightarrow> ustr" where
  "ascii_lower s = map (\<lambda>c. if 0x41 \<le> c \<and> c \<le> 0x5A then c + 0x20 else c) s"

definition sample_detector :: "int detector" where
  "sample_detector =
     \<lparr>lower = ascii_lower, HAVE_RF = False, extractOne = (\<lambda>t pool. None), round1 = (\<lambda>x. x),
      en_thresh = 88, zh_thresh = 86\<rparr>"

definition sample_text :: ustr where
  "sample_text = [0x61, 0x62, 0x63, 0x2C, 0x20, 0x61, 0x62, 0x63, 0x64, 0x3B, 0x20, 0x8166, 0x4E2D, 0x98A8, 0x4E59]"

text \<open>
  The casing of ASCII letters, two rows of a table (\<open>CT\<close> with U+96FB U+8166 U+65B7
  U+5C64, \<open>MRI\<close> with U+78C1 U+632F U+9020 U+5F71), and three pages: \<open>CT\<close> alone,
  \<open>CT\<close> followed by its Chinese term, \<open>CT\<close> followed by the Chinese term of \<open>MRI\<close>.
\<close>

definition ascii_upper :: "ustr \<Rightarrow> ustr" where
  "ascii_upper s = map (\<lambda>c. if 0x61 \<le> c \<and> c \<le> 0x7A then c - 0x20 else c) s"

definition sample_casing :: casing where
  "sample_casing =
     \<lparr>str_lower = ascii_lower, str_upper = ascii_upper,
      case_pair = (\<lambda>c d. ascii_lower [c] = ascii_lower [d])\<rparr>"

definition CT_row :: term_row where
  "CT_row = row_of [0x43, 0x54] [0x96FB, 0x8166, 0x65B7, 0x5C64] [] ZH_EN_ABBR"

definition MRI_row :: term_row where
  "MRI_row = row_of [0x4D, 0x52, 0x49] [0x78C1, 0x632F, 0x9020, 0x5F71] [] ZH_EN_ABBR"

definition page_CT :: ustr where
  "page_CT = [0x43, 0x54]"

definition page_CT_zh :: ustr where
  "page_CT_zh = [0x43, 0x54, 0x20, 0x96FB, 0x8166, 0x65B7, 0x5C64]"

definition page_CT_other :: ustr where
  "page_CT_other = [0x43, 0x54, 0x20, 0x78C1, 0x632F, 0x9020, 0x5F71]"

definition sample_options :: check_options where
  "sample_options = \<lparr>check_pair = True, check_first = True, window = 80\<rparr>"

text \<open>A table of two rows with the same triple and different variants.\<close>

definition sample_frame :: "unit frame" where
  "sample_frame =
     \<lparr>columns = [EnCol, ZhCol, VariantCol],
      rows = [(\<lambda>c. Str [])(EnCol := Str [0x41], ZhCol := Str [0x7532], VariantCol := Str [0x78]),
              (\<lambda>c. Str [])(EnCol := Str [0x41], ZhCol := Str [0x7532], VariantCol := Str [0x79])]\<rparr>"

text \<open>
  Texts for the pair extractor, built from the Chinese term U+8166 U+4E2D U+98A8, the
  English term \<open>Stroke\<close> and the abbreviation \<open>CVA\<close>: Chinese with the English in
  parentheses, English with the Chinese in parentheses, English dash Chinese, Chinese
  dash English, the first text twice, and the text with the abbreviation followed by
  the text without it.
\<close>

definition zh_stroke :: ustr where "zh_stroke = [0x8166, 0x4E2D, 0x98A8]"
definition en_stroke :: ustr where "en_stroke = [0x53, 0x74, 0x72, 0x6F, 0x6B, 0x65]"
definition en_cva :: ustr where "en_cva = [0x43, 0x56, 0x41]"

definition text_zh_en :: ustr where
  "text_zh_en = zh_stroke @ [0x28] @ en_stroke @ [0x29]"
definition text_en_zh :: ustr where
  "text_en_zh = en_stroke @ [0x28] @ zh_stroke @ [0x29]"
definition text_en_dash_zh :: ustr where
  "text_en_dash_zh = en_stroke @ [0x20, 0x2D, 0x20] @ zh_stroke"
definition text_zh_dash_en :: ustr where
  "text_zh_dash_en = zh_stroke @ [0x20, 0x2D, 0x20] @ en_stroke"
definition text_twice :: ustr where
  "text_twice = text_zh_en @ [0x20] @ text_zh_en"
definition text_abbr_then_plain :: ustr where
  "text_abbr_then_plain = zh_stroke @ [0x28] @ en_stroke @ [0x3B] @ en_cva @ [0x29, 0x20] @ text_zh_en"

text \<open>
  A term table as \<open>read_csv\<close> returns it, with the columns \<open>en_canonical\<close>,
  \<open>zh_canonical\<close> and the variant column, and one row for \<open>CT\<close> with the given
  variant cell: \<open>NonStr ()\<close> when the field is empty, a string otherwise. The only
  value that is not a string is the missing value, whose \<open>str\<close> is \<open>nan\<close>.
\<close>

definition NAN_STR :: ustr where
  "NAN_STR = [0x6E, 0x61, 0x6E]"

definition missing_str :: "unit \<Rightarrow> ustr" where
  "missing_str v = NAN_STR"

definition csv_table :: "unit cell \<Rightarrow> unit csv_frame" where
  "csv_table variant_cell =
     \<lparr>csv_columns = [[0x65, 0x6E, 0x5F, 0x63, 0x61, 0x6E, 0x6F, 0x6E, 0x69, 0x63, 0x61, 0x6C],
                      [0x7A, 0x68, 0x5F, 0x63, 0x61, 0x6E, 0x6F, 0x6E, 0x69, 0x63, 0x61, 0x6C],
                      [0x76, 0x61, 0x72, 0x69, 0x61, 0x6E, 0x74, 0x20, 0x28, 0x932F, 0x8AA4, 0x7528, 0x6CD5, 0x29]],
      csv_rows = [(\<lambda>label. NonStr ())
                    ([0x65, 0x6E, 0x5F, 0x63, 0x61, 0x6E, 0x6F, 0x6E, 0x69, 0x63, 0x61, 0x6C] := Str [0x43, 0x54],
                     [0x7A, 0x68, 0x5F, 0x63, 0x61, 0x6E, 0x6F, 0x6E, 0x69, 0x63, 0x61, 0x6C] := Str [0x96FB, 0x8166, 0x65B7, 0x5C64],
                     [0x76, 0x61, 0x72, 0x69, 0x61, 0x6E, 0x74, 0x20, 0x28, 0x932F, 0x8AA4, 0x7528, 0x6CD5, 0x29] := variant_cell)]\<rparr>"

definition text_nanometer :: ustr where
  "text_nanometer = [0x4E, 0x61, 0x6E, 0x6F, 0x6D, 0x65, 0x74, 0x65, 0x72]"

section \<open>The fuzzy pattern on CJK tokens\<close>

lemma cjk_not_space: "is_cjk c \<Longrightarrow> \<not> is_space c"
  unfolding is_cjk_def is_space_def by arith

lemma ieq_refl: "ieq cf c c"
  by (simp add: ieq_def)

lemma dropWhile_none: "\<forall>c\<in>set s. \<not> P c \<Longrightarrow> dropWhile P s = s"
  by (cases s) auto

lemma strip_no_space: "\<forall>c\<in>set s. \<not> is_space c \<Longrightarrow> strip s = s"
  by (simp add: strip_def lstrip_def rstrip_def dropWhile_none)

lemma strip_cjk: "\<forall>c\<in>set T. is_cjk c \<Longrightarrow> strip T = T"
  by (rule strip_no_space) (auto dest: cjk_not_space)

lemma pattern_cjk:
  assumes "\<forall>c\<in>set T. is_cjk c"
  shows "cjk_fuzzy_pattern T = concat (map (\<lambda>c. [Lit c, ws_star]) T)"
proof -
  have h: "map cjk_fragment T = map (\<lambda>c. [Lit c, ws_star]) T"
    by (rule map_cong[OF refl]) (use assms in \<open>simp add: cjk_fragment_def cjk_not_space\<close>)
  show ?thesis unfolding cjk_fuzzy_pattern_def strip_cjk[OF assms] h ..
qed

lemma run_ws_prefix:
  "\<forall>c\<in>set w. is_space c \<Longrightarrow> s = [] \<or> \<not> is_space (hd s) \<Longrightarrow> run [CWs] (w @ s) = length w"
proof (induction w)
  case Nil
  then show ?case by (cases s) (auto simp: run_def in_cset_def)
next
  case (Cons a w)
  then show ?case by (simp add: run_def in_cset_def)
qed

lemma spaced_head:
  "\<forall>c\<in>set T. is_cjk c \<Longrightarrow> spaced T wss = [] \<or> \<not> is_space (hd (spaced T wss))"
  by (induction T wss rule: spaced.induct) (auto dest: cjk_not_space)

lemma match_lit_ws:
  assumes "eqc c c" and "\<forall>x\<in>set w. is_space x" and "s = [] \<or> \<not> is_space (hd s)"
  shows "\<exists>rest. rx_match eqc (Lit c # ws_star # p) (c # w @ s) k caps
           = rx_match eqc p s (Suc k + length w) caps @ rest"
proof -
  have r: "run [CWs] (w @ s) = length w"
    using assms by (simp add: run_ws_prefix)
  have "rev [0 ..< Suc (length w)] = length w # rev [0 ..< length w]"
    by simp
  then show ?thesis
    using assms(1) r by (simp add: rep_top_def del: upt_Suc)
qed

lemma match_spaced:
  assumes "\<forall>c\<in>set T. is_cjk c" and "\<forall>w\<in>set wss. \<forall>c\<in>set w. is_space c"
  shows "\<exists>rest. rx_match (ieq cf) (concat (map (\<lambda>c. [Lit c, ws_star]) T)) (spaced T wss) k caps
           = (k + length (spaced T wss), caps) # rest"
  using assms
proof (induction T wss arbitrary: k rule: spaced.induct)
  case (1 wss)
  then show ?case by simp
next
  case (2 c cs)
  let ?p = "concat (map (\<lambda>c. [Lit c, ws_star]) cs)"
  have cs: "\<forall>c\<in>set cs. is_cjk c" using 2(2) by simp
  have "\<exists>rest. rx_match (ieq cf) ?p (spaced cs []) (Suc k) caps
       = (Suc k + length (spaced cs []), caps) # rest"
    by (rule "2.IH") (use cs in simp_all)
  then obtain rest where ih: "rx_match (ieq cf) ?p (spaced cs []) (Suc k) caps
       = (Suc k + length (spaced cs []), caps) # rest" ..
  have "\<exists>rest. rx_match (ieq cf) (Lit c # ws_star # ?p) (c # [] @ spaced cs []) k caps
       = rx_match (ieq cf) ?p (spaced cs []) (Suc k + length ([]::ustr)) caps @ rest"
    by (rule match_lit_ws) (use spaced_head[OF cs] in \<open>simp_all add: ieq_refl\<close>)
  then obtain rest' where "rx_match (ieq cf) (Lit c # ws_star # ?p) (c # spaced cs []) k caps
       = rx_match (ieq cf) ?p (spaced cs []) (Suc k) caps @ rest'"
    by auto
  with ih show ?case by simp
next
  case (3 c cs w wss)
  let ?p = "concat (map (\<lambda>c. [Lit c, ws_star]) cs)"
  have cs: "\<forall>c\<in>set cs. is_cjk c" using 3(2) by simp
  have w: "\<forall>x\<in>set w. is_space x" using 3(3) by simp
  have "\<exists>rest. rx_match (ieq cf) ?p (spaced cs wss) (Suc k + length w) caps
       = (Suc k + length w + length (spaced cs wss), caps) # rest"
    by (rule "3.IH") (use cs 3(3) in simp_all)
  then obtain rest where ih: "rx_match (ieq cf) ?p (spaced cs wss) (Suc k + length w) caps
       = (Suc k + length w + length (spaced cs wss), caps) # rest" ..
  have "\<exists>rest. rx_match (ieq cf) (Lit c # ws_star # ?p) (c # w @ spaced cs wss) k caps
       = rx_match (ieq cf) ?p (spaced cs wss) (Suc k + length w) caps @ rest"
    by (rule match_lit_ws) (use spaced_head[OF cs] w in \<open>simp_all add: ieq_refl\<close>)
  then obtain rest' where "rx_match (ieq cf) (Lit c # ws_star # ?p) (c # w @ spaced cs wss) k caps
       = rx_match (ieq cf) ?p (spaced cs wss) (Suc k + length w) caps @ rest'" ..
  with ih show ?case by simp
qed

lemma match_too_short:
  "length s < length T \<Longrightarrow> rx_match eqc (concat (map (\<lambda>c. [Lit c, ws_star]) T)) s k caps = []"
proof (induction T arbitrary: s k)
  case Nil
  then show ?case by simp
next
  case (Cons c cs)
  show ?case
  proof (cases s)
    case Nil
    then show ?thesis by simp
  next
    case (Cons d s')
    have "\<And>j. rx_match eqc (concat (map (\<lambda>c. [Lit c, ws_star]) cs)) (drop j s') (Suc k + j) caps = []"
      using Cons.IH Cons.prems Cons by simp
    then show ?thesis using Cons by simp
  qed
qed

lemma finditer_from_covered:
  "length s < skip \<Longrightarrow> finditer_from eqc p pos skip s = []"
  by (induction s arbitrary: pos skip) auto

lemma finditer_from_covered_eq:
  "finditer_from eqc p pos (length s) s = map (mk_match (pos + length s)) (hits_here eqc p [])"
  by (induction s arbitrary: pos) auto

lemma finditer_no_match:
  "(\<And>t. length t \<le> length s \<Longrightarrow> rx_match eqc p t 0 [] = []) \<Longrightarrow> finditer_from eqc p pos 0 s = []"
proof (induction s arbitrary: pos)
  case Nil
  then show ?case by (simp add: hits_here_def)
next
  case (Cons a s)
  have "hits_here eqc p (a # s) = []"
    using Cons.prems[of "a # s"] by (simp add: hits_here_def)
  moreover have "finditer_from eqc p (Suc pos) 0 s = []"
    using Cons.prems by (intro Cons.IH) simp
  ultimately show ?case by (simp add: next_skip_def)
qed


lemma spaced_Nil: "spaced T [] = T"
  by (induction T) auto

lemma hits_here_short:
  "length s < length T \<Longrightarrow> hits_here eqc (concat (map (\<lambda>c. [Lit c, ws_star]) T)) s = []"
  by (simp add: hits_here_def match_too_short)

lemma finditer_spaced:
  assumes "\<forall>c\<in>set T. is_cjk c" and "\<forall>w\<in>set wss. \<forall>c\<in>set w. is_space c"
  shows "finditer (ieq cf) (cjk_fuzzy_pattern T) (spaced T wss)
           = [\<lparr>m_start = 0, m_end = length (spaced T wss), m_caps = []\<rparr>]"
proof (cases T)
  case Nil
  then show ?thesis
    by (simp add: finditer_def cjk_fuzzy_pattern_def strip_def lstrip_def rstrip_def
        hits_here_def mk_match_def)
next
  case (Cons c cs)
  let ?p = "concat (map (\<lambda>c. [Lit c, ws_star]) T)"
  obtain s' where s: "spaced T wss = c # s'"
    using Cons by (cases wss) auto
  obtain rest where "rx_match (ieq cf) ?p (spaced T wss) 0 [] = (0 + length (spaced T wss), []) # rest"
    using match_spaced[OF assms, of cf 0 "[]"] by blast
  then have h: "hits_here (ieq cf) ?p (c # s') = [(Suc (length s'), [])]"
    using s by (simp add: hits_here_def)
  have e: "hits_here (ieq cf) ?p [] = []"
    using hits_here_short[of "[]" T] Cons by simp
  have "finditer_from (ieq cf) ?p 0 0 (c # s')
          = [mk_match 0 (Suc (length s'), [])] @ finditer_from (ieq cf) ?p (Suc 0) (length s') s'"
    using h by (simp add: next_skip_def)
  also have "\<dots> = [mk_match 0 (Suc (length s'), [])]"
    using e by (simp add: finditer_from_covered_eq)
  finally show ?thesis
    using s by (simp add: finditer_def pattern_cjk[OF assms(1)] mk_match_def)
qed

lemma finditer_deleted:
  assumes "\<forall>c\<in>set T. is_cjk c" and "length s < length T"
  shows "finditer eqc (cjk_fuzzy_pattern T) s = []"
  unfolding finditer_def pattern_cjk[OF assms(1)]
  by (rule finditer_no_match) (use assms(2) in \<open>simp add: match_too_short\<close>)

text \<open>
  C1. For a token \<open>T\<close> of CJK characters only, the pattern of \<open>cjk_fuzzy_pattern\<close>
  (and of \<open>cjk_pat\<close>, the same function) finds exactly one match in \<open>T\<close>, the whole of
  \<open>T\<close>; it finds exactly one match, the whole string, in \<open>T\<close> with any whitespace
  inserted after any of its characters; and it finds no match in \<open>T\<close> with one
  character deleted. The match is case-insensitive, as the callers compile it.
\<close>

theorem cjk_fuzzy_pattern_tolerance:
  assumes "\<forall>c\<in>set T. is_cjk c"
  shows "finditer (ieq cf) (cjk_fuzzy_pattern T) T
           = [\<lparr>m_start = 0, m_end = length T, m_caps = []\<rparr>]
       \<and> ((\<forall>w\<in>set wss. \<forall>c\<in>set w. is_space c) \<longrightarrow>
            finditer (ieq cf) (cjk_fuzzy_pattern T) (spaced T wss)
              = [\<lparr>m_start = 0, m_end = length (spaced T wss), m_caps = []\<rparr>])
       \<and> (i < length T \<longrightarrow>
            finditer (ieq cf) (cjk_fuzzy_pattern T) (take i T @ drop (Suc i) T) = [])
       \<and> cjk_pat T = cjk_fuzzy_pattern T"
proof (intro conjI impI)
  show "finditer (ieq cf) (cjk_fuzzy_pattern T) T = [\<lparr>m_start = 0, m_end = length T, m_caps = []\<rparr>]"
    using finditer_spaced[OF assms, of "[]" cf] by (simp add: spaced_Nil)
next
  assume "\<forall>w\<in>set wss. \<forall>c\<in>set w. is_space c"
  then show "finditer (ieq cf) (cjk_fuzzy_pattern T) (spaced T wss)
              = [\<lparr>m_start = 0, m_end = length (spaced T wss), m_caps = []\<rparr>]"
    by (rule finditer_spaced[OF assms])
next
  assume "i < length T"
  then show "finditer (ieq cf) (cjk_fuzzy_pattern T) (take i T @ drop (Suc i) T) = []"
    by (intro finditer_deleted[OF assms]) simp
next
  show "cjk_pat T = cjk_fuzzy_pattern T" by (simp add: cjk_pat_def)
qed

theorem cjk_fuzzy_pattern_tolerance_witness:
  "finditer (ieq (\<lambda>c d. False)) (cjk_fuzzy_pattern [0x8166, 0x4e2d, 0x98a8]) [0x8166, 0x4e2d, 0x98a8]
        = [\<lparr>m_start = 0, m_end = 3, m_caps = []\<rparr>]
   \<and> finditer (ieq (\<lambda>c d. False)) (cjk_fuzzy_pattern [0x8166, 0x4e2d, 0x98a8]) [0x8166, 0x20, 0x4e2d, 0x20, 0xa, 0x98a8]
        = [\<lparr>m_start = 0, m_end = 6, m_caps = []\<rparr>]
   \<and> finditer (ieq (\<lambda>c d. False)) (cjk_fuzzy_pattern [0x8166, 0x4e2d, 0x98a8]) [0x8166, 0x98a8] = []"
proof -
  have a: "\<forall>c\<in>set [0x8166, 0x4e2d, 0x98a8]. is_cjk c" by (simp add: is_cjk_def)
  have b: "\<forall>w\<in>set [[0x20], [0x20, 0x0A]]. \<forall>c\<in>set w. is_space c" by (simp add: is_space_def)
  show ?thesis
    using a b cjk_fuzzy_pattern_tolerance[OF a, of "\<lambda>c d. False" "[[0x20], [0x20, 0x0A]]" 1]
    by simp
qed


section \<open>Variant cells are split into non-empty entries\<close>

lemma delim_not_space: "is_delim c \<Longrightarrow> \<not> is_space c"
  by (auto simp: is_delim_def is_space_def)

lemma re_split_delims: "\<forall>c\<in>set s. is_delim c \<Longrightarrow> set (re_split s) \<subseteq> {[]}"
proof (induction s)
  case Nil
  then show ?case by simp
next
  case (Cons a s)
  have a: "is_delim a" using Cons.prems by simp
  have ih: "set (re_split s) \<subseteq> {[]}" using Cons by simp
  show ?case
  proof (cases s)
    case Nil
    then show ?thesis using a by simp
  next
    case (Cons d s')
    then have "is_delim d" using Cons.prems \<open>\<forall>c\<in>set (a # s). is_delim c\<close> by simp
    then have "re_split (a # s) = re_split s" using a Cons by simp
    then show ?thesis using ih by simp
  qed
qed

lemma strip_blank:
  assumes "\<forall>c\<in>set s. is_space c"
  shows "strip s = []"
proof -
  have h: "dropWhile is_space s = []"
    using assms by (induction s) auto
  show ?thesis unfolding strip_def lstrip_def rstrip_def h by simp
qed

lemma split_variants_delims: "split_variants (Str (filter is_delim s)) = []"
proof -
  have "strip (filter is_delim s) = filter is_delim s"
    by (rule strip_no_space) (auto dest: delim_not_space)
  moreover have "set (re_split (filter is_delim s)) \<subseteq> {[]}"
    by (rule re_split_delims) simp
  ultimately show ?thesis
    by (auto simp: split_variants_def filter_empty_conv)
qed

lemma split_variants_blank: "split_variants (Str (filter is_space s)) = []"
  by (simp add: split_variants_def strip_blank)

lemma mapping_sample:
  "header_mapping sample_casing (csv_columns (csv_table c)) EnCol = Some [0x65, 0x6E, 0x5F, 0x63, 0x61, 0x6E, 0x6F, 0x6E, 0x69, 0x63, 0x61, 0x6C]"
  "header_mapping sample_casing (csv_columns (csv_table c)) ZhCol = Some [0x7A, 0x68, 0x5F, 0x63, 0x61, 0x6E, 0x6F, 0x6E, 0x69, 0x63, 0x61, 0x6C]"
  "header_mapping sample_casing (csv_columns (csv_table c)) VariantCol = Some [0x76, 0x61, 0x72, 0x69, 0x61, 0x6E, 0x74, 0x20, 0x28, 0x932F, 0x8AA4, 0x7528, 0x6CD5, 0x29]"
  "header_mapping sample_casing (csv_columns (csv_table c)) AbbrCol = None"
  "header_mapping sample_casing (csv_columns (csv_table c)) StyleCol = None"
  by (simp_all add: header_mapping_def first_alias_def found_def ALIASES_def normalize_header_def
      csv_table_def sample_casing_def ascii_lower_def replace_char_def strip_def lstrip_def
      rstrip_def is_space_def SPACE_def)


lemma rows_sample:
  "csv_rows (csv_table c)
     = [(\<lambda>label. NonStr ())
          ([0x65, 0x6E, 0x5F, 0x63, 0x61, 0x6E, 0x6F, 0x6E, 0x69, 0x63, 0x61, 0x6C] := Str [0x43, 0x54],
           [0x7A, 0x68, 0x5F, 0x63, 0x61, 0x6E, 0x6F, 0x6E, 0x69, 0x63, 0x61, 0x6C] := Str [0x96FB, 0x8166, 0x65B7, 0x5C64],
           [0x76, 0x61, 0x72, 0x69, 0x61, 0x6E, 0x74, 0x20, 0x28, 0x932F, 0x8AA4, 0x7528, 0x6CD5, 0x29] := c)]"
  by (simp add: csv_table_def)

lemma map_headers_sample:
  "map (\<lambda>row. map row REQUIRED_COLS) (rows (fst (map_headers sample_casing missing_str () (csv_table c))))
     = [[Str [0x43, 0x54], Str [0x96FB, 0x8166, 0x65B7, 0x5C64], Str [], Str ZH_EN_ABBR,
         Str (astype_str missing_str c)]]"
  "map (\<lambda>row. row VariantCol) (rows (fst (map_headers sample_casing missing_str () (csv_table c))))
     = [Str (astype_str missing_str c)]"
  by (simp_all add: map_headers_def Let_def put_col_def set_series_def set_scalar_def
      mapping_sample rows_sample REQUIRED_COLS_def astype_str_def)

lemma load_patterns_rows:
  "map (\<lambda>(p, v, row). (p, v, map row REQUIRED_COLS))
       (fst (load_patterns U (py_str :: 'v \<Rightarrow> ustr) nan raw))
     = concat (map (\<lambda>row. map (\<lambda>v. (cjk_fuzzy_pattern v, v, map row REQUIRED_COLS))
                                (split_variants (Str (astype_str py_str (row VariantCol)) :: 'v cell)))
                   (rows (fst (map_headers U py_str nan raw))))"
  by (auto simp: load_patterns_def map_concat comp_def split: prod.splits)

lemmas cell_eval = astype_str_def missing_str_def NAN_STR_def
  split_variants_def strip_def lstrip_def rstrip_def is_space_def is_delim_def
  cjk_fuzzy_pattern_def cjk_fragment_def is_cjk_def HYPHEN_def

lemma sample_row_patterns:
  "map (\<lambda>(p, v, row). (p, v, map row REQUIRED_COLS))
       (fst (load_patterns sample_casing missing_str () (csv_table c)))
     = map (\<lambda>v. (cjk_fuzzy_pattern v, v,
                  [Str [0x43, 0x54], Str [0x96FB, 0x8166, 0x65B7, 0x5C64], Str [], Str ZH_EN_ABBR,
                   Str (astype_str missing_str c)]))
           (split_variants (Str (astype_str missing_str c) :: unit cell))"
proof -
  obtain row where r: "rows (fst (map_headers sample_casing missing_str () (csv_table c))) = [row]"
    using map_headers_sample(2)[of c] by (auto simp: map_eq_Cons_conv)
  have v: "row VariantCol = Str (astype_str missing_str c)"
    using map_headers_sample(2)[of c] unfolding r by simp
  have cells: "map row REQUIRED_COLS
     = [Str [0x43, 0x54], Str [0x96FB, 0x8166, 0x65B7, 0x5C64], Str [], Str ZH_EN_ABBR,
        Str (astype_str missing_str c)]"
    using map_headers_sample(1)[of c] unfolding r by simp
  show ?thesis
  proof -
    have i: "astype_str missing_str (Str (astype_str missing_str c)) = astype_str missing_str c"
      by (simp add: astype_str_def)
    show ?thesis unfolding load_patterns_rows r by (simp add: v cells i)
  qed
qed

lemma load_empty_cell:
  "map (\<lambda>(p, v, row). (p, v, map row REQUIRED_COLS))
       (fst (load_patterns sample_casing missing_str () (csv_table (NonStr ()))))
     = [([Lit 0x6E, Lit 0x61, Lit 0x6E], NAN_STR,
         [Str [0x43, 0x54], Str [0x96FB, 0x8166, 0x65B7, 0x5C64], Str [], Str ZH_EN_ABBR,
          Str NAN_STR])]"
  unfolding sample_row_patterns by (simp add: cell_eval)

lemma load_blank_cell:
  "map (\<lambda>(p, v, row). (p, v, map row REQUIRED_COLS))
       (fst (load_patterns sample_casing missing_str () (csv_table (Str [0x20, 0x20])))) = []"
  unfolding sample_row_patterns by (simp add: cell_eval)

lemma load_blank_entry:
  "map (\<lambda>(p, v, row). (p, v))
       (map (\<lambda>(p, v, row). (p, v, map row REQUIRED_COLS))
          (fst (load_patterns sample_casing missing_str ()
               (csv_table (Str [0x61, 0x2C, 0x20, 0x2C, 0x62])))))
     = [([Lit 0x61], [0x61]), ([], [0x20]), ([Lit 0x62], [0x62])]"
  unfolding sample_row_patterns by (simp add: cell_eval)

lemma nan_hits:
  "finditer (ieq (case_pair sample_casing)) [Lit 0x6E, Lit 0x61, Lit 0x6E] text_nanometer
     = [\<lparr>m_start = 0, m_end = 3, m_caps = []\<rparr>]"
  by (simp add: finditer_def hits_here_def next_skip_def mk_match_def ieq_def sample_casing_def ascii_lower_def text_nanometer_def)

lemma empty_pattern_hits:
  "finditer (ieq cf) [] [0x61, 0x62]
     = [\<lparr>m_start = 0, m_end = 0, m_caps = []\<rparr>, \<lparr>m_start = 1, m_end = 1, m_caps = []\<rparr>,
        \<lparr>m_start = 2, m_end = 2, m_caps = []\<rparr>]"
  by (simp add: finditer_def hits_here_def next_skip_def mk_match_def)

text \<open>
  C10. \<open>split_variants\<close> never returns an empty string, whatever the cell: leading,
  trailing and consecutive delimiters give no entry. A cell that is not a string gives
  the empty list, and so does a cell of delimiters only (every such cell is
  \<open>filter is_delim s\<close> for some \<open>s\<close>) and a blank cell (\<open>filter is_space s\<close>, the empty
  string included). \<open>load_patterns\<close>, however, never hands \<open>split_variants\<close> a cell that
  is not a string: \<open>astype(str)\<close> and \<open>str\<close> have made the missing value of an empty
  field the string \<open>nan\<close> before. On the table with one row, the patterns are those of
  the entries of the string of the variant cell: a field of two spaces gives no pattern,
  but an empty field gives the pattern \<open>nan\<close>, which is found at the start of
  \<open>Nanometer\<close>. An entry of spaces between two delimiters is kept as well, and its
  pattern is the empty one, found at every position of a text.
\<close>

theorem split_variants_and_missing_cell:
  "[] \<notin> set (split_variants cell)
   \<and> split_variants (NonStr v) = []
   \<and> split_variants (Str (filter is_delim s) :: 'v cell) = []
   \<and> split_variants (Str (filter is_space s) :: 'v cell) = []
   \<and> map (\<lambda>(p, v, row). (p, v, map row REQUIRED_COLS))
         (fst (load_patterns sample_casing missing_str () (csv_table c)))
       = map (\<lambda>v. (cjk_fuzzy_pattern v, v,
                    [Str [0x43, 0x54], Str [0x96FB, 0x8166, 0x65B7, 0x5C64], Str [],
                     Str ZH_EN_ABBR, Str (astype_str missing_str c)]))
             (split_variants (Str (astype_str missing_str c) :: unit cell))
   \<and> map (\<lambda>(p, v, row). (p, v, map row REQUIRED_COLS))
         (fst (load_patterns sample_casing missing_str () (csv_table (Str [0x20, 0x20])))) = []
   \<and> map (\<lambda>(p, v, row). (p, v, map row REQUIRED_COLS))
         (fst (load_patterns sample_casing missing_str () (csv_table (NonStr ()))))
       = [([Lit 0x6E, Lit 0x61, Lit 0x6E], NAN_STR,
           [Str [0x43, 0x54], Str [0x96FB, 0x8166, 0x65B7, 0x5C64], Str [], Str ZH_EN_ABBR,
            Str NAN_STR])]
   \<and> finditer (ieq (case_pair sample_casing)) [Lit 0x6E, Lit 0x61, Lit 0x6E] text_nanometer
       = [\<lparr>m_start = 0, m_end = 3, m_caps = []\<rparr>]
   \<and> map (\<lambda>(p, v, row). (p, v))
         (map (\<lambda>(p, v, row). (p, v, map row REQUIRED_COLS))
            (fst (load_patterns sample_casing missing_str ()
                    (csv_table (Str [0x61, 0x2C, 0x20, 0x2C, 0x62])))))
       = [([Lit 0x61], [0x61]), ([], [0x20]), ([Lit 0x62], [0x62])]
   \<and> finditer (ieq cf) [] [0x61, 0x62]
       = [\<lparr>m_start = 0, m_end = 0, m_caps = []\<rparr>, \<lparr>m_start = 1, m_end = 1, m_caps = []\<rparr>,
          \<lparr>m_start = 2, m_end = 2, m_caps = []\<rparr>]"
proof (intro conjI)
  show "[] \<notin> set (split_variants cell)"
    by (cases cell) (simp_all add: split_variants_def)
  show "split_variants (NonStr v) = []"
    by (simp add: split_variants_def)
  show "split_variants (Str (filter is_delim s) :: 'v cell) = []"
    by (rule split_variants_delims)
  show "split_variants (Str (filter is_space s) :: 'v cell) = []"
    by (rule split_variants_blank)
  show "map (\<lambda>(p, v, row). (p, v, map row REQUIRED_COLS))
         (fst (load_patterns sample_casing missing_str () (csv_table c)))
       = map (\<lambda>v. (cjk_fuzzy_pattern v, v,
                    [Str [0x43, 0x54], Str [0x96FB, 0x8166, 0x65B7, 0x5C64], Str [],
                     Str ZH_EN_ABBR, Str (astype_str missing_str c)]))
             (split_variants (Str (astype_str missing_str c) :: unit cell))"
    by (rule sample_row_patterns)
  show "map (\<lambda>(p, v, row). (p, v, map row REQUIRED_COLS))
         (fst (load_patterns sample_casing missing_str () (csv_table (Str [0x20, 0x20])))) = []"
    by (rule load_blank_cell)
  show "map (\<lambda>(p, v, row). (p, v, map row REQUIRED_COLS))
         (fst (load_patterns sample_casing missing_str () (csv_table (NonStr ()))))
       = [([Lit 0x6E, Lit 0x61, Lit 0x6E], NAN_STR,
           [Str [0x43, 0x54], Str [0x96FB, 0x8166, 0x65B7, 0x5C64], Str [], Str ZH_EN_ABBR,
            Str NAN_STR])]"
    by (rule load_empty_cell)
  show "finditer (ieq (case_pair sample_casing)) [Lit 0x6E, Lit 0x61, Lit 0x6E] text_nanometer
       = [\<lparr>m_start = 0, m_end = 3, m_caps = []\<rparr>]"
    by (rule nan_hits)
  show "map (\<lambda>(p, v, row). (p, v))
         (map (\<lambda>(p, v, row). (p, v, map row REQUIRED_COLS))
            (fst (load_patterns sample_casing missing_str ()
                    (csv_table (Str [0x61, 0x2C, 0x20, 0x2C, 0x62])))))
       = [([Lit 0x61], [0x61]), ([], [0x20]), ([Lit 0x62], [0x62])]"
    by (rule load_blank_entry)
  show "finditer (ieq cf) [] [0x61, 0x62]
       = [\<lparr>m_start = 0, m_end = 0, m_caps = []\<rparr>, \<lparr>m_start = 1, m_end = 1, m_caps = []\<rparr>,
          \<lparr>m_start = 2, m_end = 2, m_caps = []\<rparr>]"
    by (rule empty_pattern_hits)
qed

section \<open>Dropping duplicates\<close>

lemma dedup_from_keys:
  "set (map key (dedup_from key seen xs)) = set (map key xs) - set seen"
  by (induction xs arbitrary: seen) auto

lemma dedup_from_distinct: "distinct (map key (dedup_from key seen xs))"
  by (induction xs arbitrary: seen) (auto simp: dedup_from_keys[simplified])

lemma dedup_from_subset: "set (dedup_from key seen xs) \<subseteq> set xs"
  by (induction xs arbitrary: seen) auto

lemma dedup_from_id:
  "distinct (map key xs) \<Longrightarrow> set (map key xs) \<inter> set seen = {} \<Longrightarrow> dedup_from key seen xs = xs"
  by (induction xs arbitrary: seen) auto

lemma dedup_from_find:
  "k \<notin> set seen \<Longrightarrow>
   find (\<lambda>y. key y = k) (dedup_from key seen xs) = find (\<lambda>y. key y = k) xs"
  by (induction xs arbitrary: seen) auto

lemma drop_duplicates_distinct: "distinct (map key (drop_duplicates key xs))"
  by (simp add: drop_duplicates_def dedup_from_distinct)

lemma drop_duplicates_keys: "set (map key (drop_duplicates key xs)) = set (map key xs)"
  by (simp add: drop_duplicates_def dedup_from_keys del: set_map)

lemma drop_duplicates_subset: "set (drop_duplicates key xs) \<subseteq> set xs"
  by (simp add: drop_duplicates_def dedup_from_subset)

lemma drop_duplicates_find:
  "find (\<lambda>y. key y = k) (drop_duplicates key xs) = find (\<lambda>y. key y = k) xs"
  by (simp add: drop_duplicates_def dedup_from_find)

lemma drop_duplicates_id: "distinct (map key xs) \<Longrightarrow> drop_duplicates key xs = xs"
  by (simp add: drop_duplicates_def dedup_from_id)

lemma drop_duplicates_idem:
  "drop_duplicates key (drop_duplicates key xs) = drop_duplicates key xs"
  by (rule drop_duplicates_id) (rule drop_duplicates_distinct)


section \<open>The pair extractor on the sample text\<close>

text \<open>Evaluation rules for concrete inputs.\<close>

lemmas rx_eval = finditer_def hits_here_def next_skip_def mk_match_def run_def rep_top_def
  in_cset_def is_space_def

lemmas pat_eval = pat1_def pat2_def pat3_def pat4_def pat5_def grp_def ZH_def EN_def ABBR_def
  LETTER_def ALNUM_HYPHEN_def LPAR_def RPAR_def DASH_def

lemmas pair_eval = pairs_abbr_def pairs_plain_def row_of_def m_group_def mark_at_def
  strip_def lstrip_def rstrip_def is_space_def SPACE_def

lemma sample_pat1:
  "finditer (=) pat1 [0x8166, 0x4E2D, 0x98A8, 0x28, 0x53, 0x74, 0x72, 0x6F, 0x6B, 0x65, 0x3B, 0x43, 0x56, 0x41, 0x29]
     = [\<lparr>m_start = 0, m_end = 15,
         m_caps = [(''zh<'', 0), (''zh>'', 3), (''en<'', 4), (''en>'', 10),
                   (''abbr<'', 11), (''abbr>'', 14)]\<rparr>]"
  by (simp add: rx_eval pat_eval)

lemma sample_pat2: "finditer (=) pat2 [0x8166, 0x4E2D, 0x98A8, 0x28, 0x53, 0x74, 0x72, 0x6F, 0x6B, 0x65, 0x3B, 0x43, 0x56, 0x41, 0x29] = []"
  by (simp add: rx_eval pat_eval)

lemma sample_pat3: "finditer (=) pat3 [0x8166, 0x4E2D, 0x98A8, 0x28, 0x53, 0x74, 0x72, 0x6F, 0x6B, 0x65, 0x3B, 0x43, 0x56, 0x41, 0x29] = []"
  by (simp add: rx_eval pat_eval)

lemma sample_pat4: "finditer (=) pat4 [0x8166, 0x4E2D, 0x98A8, 0x28, 0x53, 0x74, 0x72, 0x6F, 0x6B, 0x65, 0x3B, 0x43, 0x56, 0x41, 0x29] = []"
  by (simp add: rx_eval pat_eval)

lemma sample_pat5: "finditer (=) pat5 [0x8166, 0x4E2D, 0x98A8, 0x28, 0x53, 0x74, 0x72, 0x6F, 0x6B, 0x65, 0x3B, 0x43, 0x56, 0x41, 0x29] = []"
  by (simp add: rx_eval pat_eval)

lemma sample_all_pairs:
  "all_pairs [0x8166, 0x4E2D, 0x98A8, 0x28, 0x53, 0x74, 0x72, 0x6F, 0x6B, 0x65, 0x3B, 0x43, 0x56, 0x41, 0x29] = [row_of [0x53, 0x74, 0x72, 0x6F, 0x6B, 0x65] [0x8166, 0x4E2D, 0x98A8] [0x43, 0x56, 0x41] ZH_EN_ABBR]"
  "all_pairs3 [0x8166, 0x4E2D, 0x98A8, 0x28, 0x53, 0x74, 0x72, 0x6F, 0x6B, 0x65, 0x3B, 0x43, 0x56, 0x41, 0x29] = [row_of [0x53, 0x74, 0x72, 0x6F, 0x6B, 0x65] [0x8166, 0x4E2D, 0x98A8] [0x43, 0x56, 0x41] ZH_EN_ABBR]"
  by (simp_all add: all_pairs_def all_pairs3_def sample_pat1 sample_pat2 sample_pat3
      sample_pat4 sample_pat5 pair_eval)

lemmas text_eval = zh_stroke_def en_stroke_def en_cva_def text_zh_en_def text_en_zh_def
  text_en_dash_zh_def text_zh_dash_en_def text_twice_def text_abbr_then_plain_def

lemma ex_zh_en: "all_pairs text_zh_en = [row_of en_stroke zh_stroke [] ZH_EN]"
  "all_pairs3 text_zh_en = [row_of en_stroke zh_stroke [] ZH_EN]"
  by (simp_all add: all_pairs_def all_pairs3_def text_eval rx_eval pat_eval pair_eval)

lemma ex_en_zh: "all_pairs text_en_zh = [row_of en_stroke zh_stroke [] ZH_EN]"
  "all_pairs3 text_en_zh = [row_of en_stroke zh_stroke [] ZH_EN]"
  by (simp_all add: all_pairs_def all_pairs3_def text_eval rx_eval pat_eval pair_eval)

lemma ex_en_dash_zh: "all_pairs text_en_dash_zh = [row_of en_stroke zh_stroke [] ZH_EN]"
  "all_pairs3 text_en_dash_zh = []"
  by (simp_all add: all_pairs_def all_pairs3_def text_eval rx_eval pat_eval pair_eval)

lemma ex_zh_dash_en: "all_pairs text_zh_dash_en = [row_of en_stroke zh_stroke [] ZH_EN]"
  "all_pairs3 text_zh_dash_en = []"
  by (simp_all add: all_pairs_def all_pairs3_def text_eval rx_eval pat_eval pair_eval)

lemma ex_twice: "all_pairs text_twice = [row_of en_stroke zh_stroke [] ZH_EN, row_of en_stroke zh_stroke [] ZH_EN]"
  "all_pairs3 text_twice = [row_of en_stroke zh_stroke [] ZH_EN, row_of en_stroke zh_stroke [] ZH_EN]"
  by (simp_all add: all_pairs_def all_pairs3_def text_eval rx_eval pat_eval pair_eval)

lemma ex_abbr_plain: "all_pairs text_abbr_then_plain = [row_of en_stroke zh_stroke en_cva ZH_EN_ABBR, row_of en_stroke zh_stroke [] ZH_EN]"
  "all_pairs3 text_abbr_then_plain = [row_of en_stroke zh_stroke en_cva ZH_EN_ABBR, row_of en_stroke zh_stroke [] ZH_EN]"
  by (simp_all add: all_pairs_def all_pairs3_def text_eval rx_eval pat_eval pair_eval)

lemma pairs_style:
  "map first_mention_style (pairs_abbr p t) = replicate (length (finditer (=) p t)) ZH_EN_ABBR"
  "map first_mention_style (pairs_plain p t) = replicate (length (finditer (=) p t)) ZH_EN"
  by (simp_all add: pairs_abbr_def pairs_plain_def row_of_def comp_def map_replicate_const)

text \<open>
  C5. On the text of the sample (U+8166 U+4E2D U+98A8, then \<open>(Stroke;CVA)\<close>) the
  extractor returns exactly one pair: English \<open>Stroke\<close>, the three Chinese characters,
  abbreviation \<open>CVA\<close>, style \<open>ZH(EN;ABBR)\<close>; this holds for the five-pattern
  function, for the three-pattern one, and for the one that reads the pages of a
  document whose only page has this text. In general every match of a pattern gives
  one pair, in the order of the patterns and of the matches: a match of pattern 1 gives
  its three groups with the style \<open>ZH(EN;ABBR)\<close>, a match of any other pattern its
  two groups, the empty abbreviation and the style \<open>ZH(EN)\<close>. A text matched by
  pattern 2, 3, 4 or 5 alone gives one pair tagged \<open>ZH(EN)\<close> (the three-pattern
  function finds nothing in the texts with a dash); the same pair found twice is
  returned once, and the pair with an abbreviation and the pair without it are both
  returned. The triples of the result are distinct, they are the triples of the
  matches, and the row kept for a triple is the first one found.
\<close>

theorem parse_pdf_pairs_sample_and_tags:
  "parse_pdf_pairs [0x8166, 0x4E2D, 0x98A8, 0x28, 0x53, 0x74, 0x72, 0x6F, 0x6B, 0x65, 0x3B, 0x43, 0x56, 0x41, 0x29] = [row_of [0x53, 0x74, 0x72, 0x6F, 0x6B, 0x65] [0x8166, 0x4E2D, 0x98A8] [0x43, 0x56, 0x41] ZH_EN_ABBR]
   \<and> parse_pdf_pairs3 [0x8166, 0x4E2D, 0x98A8, 0x28, 0x53, 0x74, 0x72, 0x6F, 0x6B, 0x65, 0x3B, 0x43, 0x56, 0x41, 0x29] = [row_of [0x53, 0x74, 0x72, 0x6F, 0x6B, 0x65] [0x8166, 0x4E2D, 0x98A8] [0x43, 0x56, 0x41] ZH_EN_ABBR]
   \<and> parse_pdf_pairs_pages [Inr (Some [0x8166, 0x4E2D, 0x98A8, 0x28, 0x53, 0x74, 0x72, 0x6F, 0x6B, 0x65, 0x3B, 0x43, 0x56, 0x41, 0x29])] = [row_of [0x53, 0x74, 0x72, 0x6F, 0x6B, 0x65] [0x8166, 0x4E2D, 0x98A8] [0x43, 0x56, 0x41] ZH_EN_ABBR]
   \<and> all_pairs t
       = map (\<lambda>m. row_of (collapse_ws (strip (m_group t m ''en''))) (strip (m_group t m ''zh''))
                          (strip (m_group t m ''abbr'')) ZH_EN_ABBR) (finditer (=) pat1 t)
         @ map (\<lambda>m. row_of (collapse_ws (strip (m_group t m ''en''))) (strip (m_group t m ''zh''))
                            [] ZH_EN)
             (finditer (=) pat2 t @ finditer (=) pat3 t @ finditer (=) pat4 t @ finditer (=) pat5 t)
   \<and> all_pairs3 t
       = map (\<lambda>m. row_of (collapse_ws (strip (m_group t m ''en''))) (strip (m_group t m ''zh''))
                          (strip (m_group t m ''abbr'')) ZH_EN_ABBR) (finditer (=) pat1 t)
         @ map (\<lambda>m. row_of (collapse_ws (strip (m_group t m ''en''))) (strip (m_group t m ''zh''))
                            [] ZH_EN)
             (finditer (=) pat2 t @ finditer (=) pat3 t)
   \<and> map first_mention_style (all_pairs t)
       = replicate (length (finditer (=) pat1 t)) ZH_EN_ABBR
         @ replicate (length (finditer (=) pat2 t @ finditer (=) pat3 t @ finditer (=) pat4 t @ finditer (=) pat5 t)) ZH_EN
   \<and> map first_mention_style (all_pairs3 t)
       = replicate (length (finditer (=) pat1 t)) ZH_EN_ABBR
         @ replicate (length (finditer (=) pat2 t @ finditer (=) pat3 t)) ZH_EN
   \<and> parse_pdf_pairs text_zh_en = [row_of en_stroke zh_stroke [] ZH_EN]
   \<and> parse_pdf_pairs3 text_zh_en = [row_of en_stroke zh_stroke [] ZH_EN]
   \<and> parse_pdf_pairs text_en_zh = [row_of en_stroke zh_stroke [] ZH_EN]
   \<and> parse_pdf_pairs3 text_en_zh = [row_of en_stroke zh_stroke [] ZH_EN]
   \<and> parse_pdf_pairs text_en_dash_zh = [row_of en_stroke zh_stroke [] ZH_EN]
   \<and> parse_pdf_pairs3 text_en_dash_zh = []
   \<and> parse_pdf_pairs text_zh_dash_en = [row_of en_stroke zh_stroke [] ZH_EN]
   \<and> parse_pdf_pairs3 text_zh_dash_en = []
   \<and> parse_pdf_pairs text_twice = [row_of en_stroke zh_stroke [] ZH_EN]
   \<and> parse_pdf_pairs3 text_twice = [row_of en_stroke zh_stroke [] ZH_EN]
   \<and> parse_pdf_pairs text_abbr_then_plain = [row_of en_stroke zh_stroke en_cva ZH_EN_ABBR, row_of en_stroke zh_stroke [] ZH_EN]
   \<and> parse_pdf_pairs3 text_abbr_then_plain = [row_of en_stroke zh_stroke en_cva ZH_EN_ABBR, row_of en_stroke zh_stroke [] ZH_EN]
   \<and> distinct (map triple (parse_pdf_pairs t))
   \<and> set (map triple (parse_pdf_pairs t)) = set (map triple (all_pairs t))
   \<and> find (\<lambda>r. triple r = k) (parse_pdf_pairs t) = find (\<lambda>r. triple r = k) (all_pairs t)
   \<and> distinct (map triple (parse_pdf_pairs3 t))
   \<and> set (map triple (parse_pdf_pairs3 t)) = set (map triple (all_pairs3 t))
   \<and> find (\<lambda>r. triple r = k) (parse_pdf_pairs3 t) = find (\<lambda>r. triple r = k) (all_pairs3 t)"
proof (intro conjI)
  have n: "normalize_text [0x8166, 0x4E2D, 0x98A8, 0x28, 0x53, 0x74, 0x72, 0x6F, 0x6B, 0x65, 0x3B, 0x43, 0x56, 0x41, 0x29] = [0x8166, 0x4E2D, 0x98A8, 0x28, 0x53, 0x74, 0x72, 0x6F, 0x6B, 0x65, 0x3B, 0x43, 0x56, 0x41, 0x29]"
    by (simp add: normalize_text_def replace_char_def ZERO_WIDTH_def is_space_def)
  show "parse_pdf_pairs [0x8166, 0x4E2D, 0x98A8, 0x28, 0x53, 0x74, 0x72, 0x6F, 0x6B, 0x65, 0x3B, 0x43, 0x56, 0x41, 0x29] = [row_of [0x53, 0x74, 0x72, 0x6F, 0x6B, 0x65] [0x8166, 0x4E2D, 0x98A8] [0x43, 0x56, 0x41] ZH_EN_ABBR]"
    by (simp add: parse_pdf_pairs_def sample_all_pairs drop_duplicates_def)
  show "parse_pdf_pairs3 [0x8166, 0x4E2D, 0x98A8, 0x28, 0x53, 0x74, 0x72, 0x6F, 0x6B, 0x65, 0x3B, 0x43, 0x56, 0x41, 0x29] = [row_of [0x53, 0x74, 0x72, 0x6F, 0x6B, 0x65] [0x8166, 0x4E2D, 0x98A8] [0x43, 0x56, 0x41] ZH_EN_ABBR]"
    by (simp add: parse_pdf_pairs3_def sample_all_pairs drop_duplicates_def)
  show "parse_pdf_pairs_pages [Inr (Some [0x8166, 0x4E2D, 0x98A8, 0x28, 0x53, 0x74, 0x72, 0x6F, 0x6B, 0x65, 0x3B, 0x43, 0x56, 0x41, 0x29])] = [row_of [0x53, 0x74, 0x72, 0x6F, 0x6B, 0x65] [0x8166, 0x4E2D, 0x98A8] [0x43, 0x56, 0x41] ZH_EN_ABBR]"
    by (simp add: parse_pdf_pairs_pages_def raw_text_def n parse_pdf_pairs3_def
        sample_all_pairs drop_duplicates_def)
  show "all_pairs t
       = map (\<lambda>m. row_of (collapse_ws (strip (m_group t m ''en''))) (strip (m_group t m ''zh''))
                          (strip (m_group t m ''abbr'')) ZH_EN_ABBR) (finditer (=) pat1 t)
         @ map (\<lambda>m. row_of (collapse_ws (strip (m_group t m ''en''))) (strip (m_group t m ''zh''))
                            [] ZH_EN)
             (finditer (=) pat2 t @ finditer (=) pat3 t @ finditer (=) pat4 t @ finditer (=) pat5 t)"
    by (simp add: all_pairs_def pairs_abbr_def pairs_plain_def)
  show "all_pairs3 t
       = map (\<lambda>m. row_of (collapse_ws (strip (m_group t m ''en''))) (strip (m_group t m ''zh''))
                          (strip (m_group t m ''abbr'')) ZH_EN_ABBR) (finditer (=) pat1 t)
         @ map (\<lambda>m. row_of (collapse_ws (strip (m_group t m ''en''))) (strip (m_group t m ''zh''))
                            [] ZH_EN)
             (finditer (=) pat2 t @ finditer (=) pat3 t)"
    by (simp add: all_pairs3_def pairs_abbr_def pairs_plain_def)
  show "map first_mention_style (all_pairs t)
       = replicate (length (finditer (=) pat1 t)) ZH_EN_ABBR
         @ replicate (length (finditer (=) pat2 t @ finditer (=) pat3 t @ finditer (=) pat4 t @ finditer (=) pat5 t)) ZH_EN"
    by (simp add: all_pairs_def pairs_style replicate_add)
  show "map first_mention_style (all_pairs3 t)
       = replicate (length (finditer (=) pat1 t)) ZH_EN_ABBR
         @ replicate (length (finditer (=) pat2 t @ finditer (=) pat3 t)) ZH_EN"
    by (simp add: all_pairs3_def pairs_style replicate_add)
  show "parse_pdf_pairs text_zh_en = [row_of en_stroke zh_stroke [] ZH_EN]"
    by (simp add: parse_pdf_pairs_def ex_zh_en drop_duplicates_def triple_def row_of_def)
  show "parse_pdf_pairs3 text_zh_en = [row_of en_stroke zh_stroke [] ZH_EN]"
    by (simp add: parse_pdf_pairs3_def ex_zh_en drop_duplicates_def triple_def row_of_def)
  show "parse_pdf_pairs text_en_zh = [row_of en_stroke zh_stroke [] ZH_EN]"
    by (simp add: parse_pdf_pairs_def ex_en_zh drop_duplicates_def triple_def row_of_def)
  show "parse_pdf_pairs3 text_en_zh = [row_of en_stroke zh_stroke [] ZH_EN]"
    by (simp add: parse_pdf_pairs3_def ex_en_zh drop_duplicates_def triple_def row_of_def)
  show "parse_pdf_pairs text_en_dash_zh = [row_of en_stroke zh_stroke [] ZH_EN]"
    by (simp add: parse_pdf_pairs_def ex_en_dash_zh drop_duplicates_def triple_def row_of_def)
  show "parse_pdf_pairs3 text_en_dash_zh = []"
    by (simp add: parse_pdf_pairs3_def ex_en_dash_zh drop_duplicates_def triple_def row_of_def)
  show "parse_pdf_pairs text_zh_dash_en = [row_of en_stroke zh_stroke [] ZH_EN]"
    by (simp add: parse_pdf_pairs_def ex_zh_dash_en drop_duplicates_def triple_def row_of_def)
  show "parse_pdf_pairs3 text_zh_dash_en = []"
    by (simp add: parse_pdf_pairs3_def ex_zh_dash_en drop_duplicates_def triple_def row_of_def)
  show "parse_pdf_pairs text_twice = [row_of en_stroke zh_stroke [] ZH_EN]"
    by (simp add: parse_pdf_pairs_def ex_twice drop_duplicates_def triple_def row_of_def)
  show "parse_pdf_pairs3 text_twice = [row_of en_stroke zh_stroke [] ZH_EN]"
    by (simp add: parse_pdf_pairs3_def ex_twice drop_duplicates_def triple_def row_of_def)
  show "parse_pdf_pairs text_abbr_then_plain = [row_of en_stroke zh_stroke en_cva ZH_EN_ABBR, row_of en_stroke zh_stroke [] ZH_EN]"
    by (simp add: parse_pdf_pairs_def ex_abbr_plain drop_duplicates_def triple_def row_of_def en_cva_def)
  show "parse_pdf_pairs3 text_abbr_then_plain = [row_of en_stroke zh_stroke en_cva ZH_EN_ABBR, row_of en_stroke zh_stroke [] ZH_EN]"
    by (simp add: parse_pdf_pairs3_def ex_abbr_plain drop_duplicates_def triple_def row_of_def en_cva_def)
  show "distinct (map triple (parse_pdf_pairs t))"
    unfolding parse_pdf_pairs_def by (rule drop_duplicates_distinct)
  show "set (map triple (parse_pdf_pairs t)) = set (map triple (all_pairs t))"
    unfolding parse_pdf_pairs_def by (rule drop_duplicates_keys)
  show "find (\<lambda>r. triple r = k) (parse_pdf_pairs t) = find (\<lambda>r. triple r = k) (all_pairs t)"
    unfolding parse_pdf_pairs_def by (rule drop_duplicates_find)
  show "distinct (map triple (parse_pdf_pairs3 t))"
    unfolding parse_pdf_pairs3_def by (rule drop_duplicates_distinct)
  show "set (map triple (parse_pdf_pairs3 t)) = set (map triple (all_pairs3 t))"
    unfolding parse_pdf_pairs3_def by (rule drop_duplicates_keys)
  show "find (\<lambda>r. triple r = k) (parse_pdf_pairs3 t) = find (\<lambda>r. triple r = k) (all_pairs3 t)"
    unfolding parse_pdf_pairs3_def by (rule drop_duplicates_find)
qed

section \<open>Stripping is idempotent\<close>

lemma dropWhile_keep: "xs = [] \<or> \<not> P (hd xs) \<Longrightarrow> dropWhile P xs = xs"
  by (cases xs) auto

lemma strip_trimmed:
  "strip s = [] \<or> (\<not> is_space (hd (strip s)) \<and> \<not> is_space (last (strip s)))"
proof (cases "lstrip s")
  case Nil
  then show ?thesis by (simp add: strip_def rstrip_def)
next
  case (Cons a t)
  have "dropWhile is_space s \<noteq> []" using Cons by (simp add: lstrip_def)
  then have "\<not> is_space (hd (dropWhile is_space s))" by (rule hd_dropWhile)
  then have a: "\<not> is_space a" using Cons unfolding lstrip_def by simp
  let ?X = "dropWhile is_space (rev t)"
  have u: "strip s = a # rev ?X"
    using a Cons by (simp add: strip_def rstrip_def dropWhile_append3)
  have "\<not> is_space (last (a # rev ?X))"
  proof (cases "?X = []")
    case True
    then show ?thesis using a by simp
  next
    case False
    then have "\<not> is_space (hd ?X)" by (rule hd_dropWhile)
    then show ?thesis using False by (auto simp: last_rev)
  qed
  then show ?thesis using a u by simp
qed

lemma strip_fix:
  assumes "s = [] \<or> (\<not> is_space (hd s) \<and> \<not> is_space (last s))"
  shows "strip s = s"
proof (cases "s = []")
  case True
  then show ?thesis by (simp add: strip_def lstrip_def rstrip_def)
next
  case False
  then have h: "\<not> is_space (hd s)" and l: "\<not> is_space (hd (rev s))"
    using assms by (simp_all add: hd_rev)
  have "dropWhile is_space s = s" using h by (simp add: dropWhile_keep)
  moreover have "dropWhile is_space (rev s) = rev s" using l by (simp add: dropWhile_keep)
  ultimately show ?thesis by (simp add: strip_def lstrip_def rstrip_def)
qed

lemma strip_idem: "strip (strip s) = strip s"
  by (rule strip_fix) (rule strip_trimmed)

section \<open>Normalization of the term table\<close>

lemma std_col_columns:
  "set (columns (std_col py_str d c)) = insert c (set (columns d))"
  by (auto simp: std_col_def strip_col_def add_missing_def)

lemma std_col_rows:
  "rows (std_col py_str d c)
     = map (\<lambda>r. r(c := Str (strip (if c \<in> set (columns d) then astype_str py_str (r c) else []))))
           (rows d)"
  by (simp add: std_col_def strip_col_def add_missing_def astype_str_def)

lemma loop_gen:
  "distinct cs \<Longrightarrow>
   rows (foldl (std_col py_str) d cs)
     = map (\<lambda>r c. if c \<in> set cs
                    then Str (strip (if c \<in> set (columns d) then astype_str py_str (r c) else []))
                    else r c) (rows d)"
proof (induction cs arbitrary: d)
  case Nil
  then show ?case by simp
next
  case (Cons a cs)
  have "rows (foldl (std_col py_str) (std_col py_str d a) cs)
     = map (\<lambda>r c. if c \<in> set cs
                    then Str (strip (if c \<in> set (columns (std_col py_str d a))
                                     then astype_str py_str (r c) else []))
                    else r c) (rows (std_col py_str d a))"
    using Cons.prems by (intro Cons.IH) simp
  then show ?case
    using Cons.prems by (auto simp: std_col_columns std_col_rows fun_eq_iff)
qed

lemma loop_rows:
  "rows (foldl (std_col py_str) d REQUIRED_COLS) = map (norm_row py_str (columns d)) (rows d)"
proof -
  have "distinct REQUIRED_COLS" by (simp add: REQUIRED_COLS_def)
  then show ?thesis by (simp add: loop_gen norm_row_def[abs_def])
qed

lemma dedup_from_map:
  "(\<And>x. key (f x) = key' x) \<Longrightarrow>
   dedup_from key seen (map f xs) = map f (dedup_from key' seen xs)"
  by (induction xs arbitrary: seen) auto

lemma drop_duplicates_map:
  "(\<And>x. key (f x) = key' x) \<Longrightarrow>
   drop_duplicates key (map f xs) = map f (drop_duplicates key' xs)"
  by (simp add: drop_duplicates_def dedup_from_map)

lemma required_mem: "EnCol \<in> set REQUIRED_COLS" "ZhCol \<in> set REQUIRED_COLS"
  "AbbrCol \<in> set REQUIRED_COLS" "StyleCol \<in> set REQUIRED_COLS" "VariantCol \<in> set REQUIRED_COLS"
  by (simp_all add: REQUIRED_COLS_def)

lemma standardize_rows:
  assumes "\<not> df_empty d"
  shows "standardize_master py_str (Some d)
           = \<lparr>columns = REQUIRED_COLS,
              rows = drop_duplicates key3 (map (final_row py_str (columns d)) (rows d))\<rparr>"
proof -
  let ?sel = "\<lambda>r c. if c \<in> set REQUIRED_COLS then r c else Str []"
  let ?fill = "\<lambda>r. if r StyleCol = Str [] then r(StyleCol := Str ZH_EN_ABBR) else r"
  let ?n = "norm_row py_str (columns d)"
  have k: "\<And>r. key3 (?sel r) = key3 r"
    by (simp add: key3_def required_mem)
  have f: "\<And>r. ?sel (?fill (?n r)) = final_row py_str (columns d) r"
    by (auto simp: final_row_def fun_eq_iff)
  have "map ?sel (drop_duplicates key3 (map ?fill (map ?n (rows d))))
          = drop_duplicates key3 (map ?sel (map ?fill (map ?n (rows d))))"
    by (rule drop_duplicates_map[symmetric]) (rule k)
  also have "\<dots> = drop_duplicates key3 (map (final_row py_str (columns d)) (rows d))"
    using f by (simp add: comp_def)
  finally show ?thesis
    using assms
    by (simp add: standardize_master_def select_cols_def dedup_rows_def fill_style_def
        loop_rows)
qed

lemma strip_default: "strip ZH_EN_ABBR = ZH_EN_ABBR"
  by (simp add: ZH_EN_ABBR_def strip_def lstrip_def rstrip_def is_space_def)

lemma default_nonempty: "ZH_EN_ABBR \<noteq> []"
  by (simp add: ZH_EN_ABBR_def)

lemma final_row_str:
  assumes "c \<in> set REQUIRED_COLS"
  shows "\<exists>s. final_row py_str cols r c = Str s \<and> strip s = s \<and> (c = StyleCol \<longrightarrow> s \<noteq> [])"
proof (cases "c = StyleCol \<and> norm_row py_str cols r StyleCol = Str []")
  case True
  then show ?thesis
    using assms by (simp add: final_row_def strip_default default_nonempty)
next
  case False
  then show ?thesis
    using assms by (auto simp: final_row_def norm_row_def strip_idem)
qed

lemma final_row_fix:
  "final_row py_str REQUIRED_COLS (final_row py_str cols r) = final_row py_str cols r"
proof
  fix c
  show "final_row py_str REQUIRED_COLS (final_row py_str cols r) c = final_row py_str cols r c"
  proof (cases "c \<in> set REQUIRED_COLS")
    case False
    then show ?thesis by (simp add: final_row_def)
  next
    case True
    obtain s where s: "final_row py_str cols r c = Str s" "strip s = s"
      using final_row_str[OF True] by blast
    obtain t where t: "final_row py_str cols r StyleCol = Str t" "strip t = t" "t \<noteq> []"
      using final_row_str[OF required_mem(4)] by blast
    have n: "norm_row py_str REQUIRED_COLS (final_row py_str cols r) c = Str s"
      using True s by (simp add: norm_row_def astype_str_def)
    have "norm_row py_str REQUIRED_COLS (final_row py_str cols r) StyleCol = Str t"
      using t by (simp add: norm_row_def astype_str_def required_mem)
    then have "final_row py_str REQUIRED_COLS (final_row py_str cols r) c
                 = norm_row py_str REQUIRED_COLS (final_row py_str cols r) c"
      using True t(3) by (simp add: final_row_def[of py_str REQUIRED_COLS])
    then show ?thesis using n s by simp
  qed
qed

lemma dedup_from_nonempty:
  "xs \<noteq> [] \<Longrightarrow> key (hd xs) \<notin> set seen \<Longrightarrow> dedup_from key seen xs \<noteq> []"
  by (cases xs) auto

lemma drop_duplicates_nonempty: "xs \<noteq> [] \<Longrightarrow> drop_duplicates key xs \<noteq> []"
  by (simp add: drop_duplicates_def dedup_from_nonempty)

lemma standardize_empty:
  "df_empty d \<Longrightarrow> standardize_master py_str (Some d) = empty_frame"
  "standardize_master py_str None = empty_frame"
  "df_empty (empty_frame :: 'v frame)"
  by (simp_all add: standardize_master_def df_empty_def empty_frame_def)

lemma standardize_master_fix:
  assumes "\<not> df_empty d"
  shows "standardize_master py_str (Some (standardize_master py_str (Some d)))
           = standardize_master py_str (Some d)"
proof -
  let ?ys = "drop_duplicates key3 (map (final_row py_str (columns d)) (rows d))"
  let ?out = "\<lparr>columns = REQUIRED_COLS, rows = ?ys\<rparr> :: 'a frame"
  have out: "standardize_master py_str (Some d) = ?out"
    by (rule standardize_rows[OF assms])
  have "rows d \<noteq> []" using assms by (simp add: df_empty_def)
  then have "?ys \<noteq> []" by (simp add: drop_duplicates_nonempty)
  then have ne: "\<not> df_empty ?out" by (simp add: df_empty_def REQUIRED_COLS_def)
  have "set ?ys \<subseteq> set (map (final_row py_str (columns d)) (rows d))"
    by (rule drop_duplicates_subset)
  then have "\<And>y. y \<in> set ?ys \<Longrightarrow> final_row py_str REQUIRED_COLS y = y"
    by (auto simp: final_row_fix)
  then have m: "map (final_row py_str REQUIRED_COLS) ?ys = ?ys"
    by (simp add: map_idI)
  have "drop_duplicates key3 ?ys = ?ys"
    by (rule drop_duplicates_idem)
  then have "standardize_master py_str (Some ?out) = ?out"
    using standardize_rows[OF ne, of py_str] m by simp
  then show ?thesis by (simp add: out)
qed

lemma standardize_master_twice:
  "standardize_master py_str (Some (standardize_master py_str df)) = standardize_master py_str df"
proof (cases df)
  case None
  then show ?thesis by (simp add: standardize_empty)
next
  case (Some d)
  show ?thesis
  proof (cases "df_empty d")
    case True
    then show ?thesis using Some by (simp add: standardize_empty)
  next
    case False
    then show ?thesis using Some by (simp add: standardize_master_fix)
  qed
qed

text \<open>
  C6. Normalizing a normalized table changes nothing:
  \<open>standardize_master (standardize_master df) = standardize_master df\<close>, for every
  argument, \<open>None\<close> and the empty frames included.
\<close>

theorem standardize_master_idempotent:
  "standardize_master py_str (Some (standardize_master py_str df)) = standardize_master py_str df"
  by (rule standardize_master_twice)

lemma standardize_distinct: "distinct (map key3 (rows (standardize_master py_str df)))"
proof (cases df)
  case None
  then show ?thesis by (simp add: standardize_empty empty_frame_def)
next
  case (Some d)
  show ?thesis
  proof (cases "df_empty d")
    case True
    then show ?thesis using Some by (simp add: standardize_empty empty_frame_def)
  next
    case False
    then show ?thesis using Some by (simp add: standardize_rows drop_duplicates_distinct)
  qed
qed

lemma standardize_columns: "columns (standardize_master py_str df) = REQUIRED_COLS"
  by (cases df) (simp_all add: standardize_master_def empty_frame_def select_cols_def)

lemma distinct_map_finer:
  "distinct (map f xs) \<Longrightarrow> (\<And>x y. g x = g y \<Longrightarrow> f x = f y) \<Longrightarrow> distinct (map g xs)"
proof (induction xs)
  case Nil
  show ?case by simp
next
  case (Cons a xs)
  have "g a \<notin> g ` set xs"
  proof
    assume "g a \<in> g ` set xs"
    then obtain y where y: "y \<in> set xs" "g a = g y" by blast
    have "f a = f y" using y(2) by (rule Cons.prems(2))
    then have "f a \<in> f ` set xs" using y(1) by (rule image_eqI)
    then show False using Cons.prems(1) by simp
  qed
  moreover have "distinct (map g xs)"
  proof (rule Cons.IH)
    show "distinct (map f xs)" using Cons.prems(1) by simp
    show "\<And>x y. g x = g y \<Longrightarrow> f x = f y" by (rule Cons.prems(2))
  qed
  ultimately show ?case by simp
qed

lemma filter_key_one:
  "distinct (map key xs) \<Longrightarrow> x \<in> set xs \<Longrightarrow> length (filter (\<lambda>y. key y = key x) xs) = 1"
proof (induction xs)
  case Nil
  then show ?case by simp
next
  case (Cons a xs)
  show ?case
  proof (cases "key a = key x")
    case True
    have d: "key a \<notin> key ` set xs" using Cons.prems(1) by simp
    have "filter (\<lambda>y. key y = key x) xs = []"
      unfolding filter_empty_conv using d True by (metis imageI)
    then show ?thesis using True by simp
  next
    case False
    then have "x \<in> set xs" using Cons.prems(2) by auto
    then have "length (filter (\<lambda>y. key y = key x) xs) = 1"
      using Cons by simp
    then show ?thesis using False by simp
  qed
qed

lemma written_distinct:
  assumes "columns df = REQUIRED_COLS" and "distinct (map key3 (rows df))"
  shows "distinct (written_triples (frame_values df))"
proof -
  have "written_triples (frame_values df)
          = map (\<lambda>r. [Value (r EnCol), Value (r ZhCol), Value (r AbbrCol)]) (rows df)"
    unfolding written_triples_def frame_values_def assms(1) REQUIRED_COLS_def by simp
  moreover have "distinct (map (\<lambda>r. [Value (r EnCol), Value (r ZhCol), Value (r AbbrCol)]) (rows df))"
    by (rule distinct_map_finer[OF assms(2)]) (simp add: key3_def)
  ultimately show ?thesis by simp
qed

lemma standardize_find:
  assumes "\<not> df_empty d"
  shows "find (\<lambda>x. key3 x = k) (rows (standardize_master py_str (Some d)))
           = find (\<lambda>x. key3 x = k) (map (final_row py_str (columns d)) (rows d))"
  by (simp add: standardize_rows[OF assms] drop_duplicates_find)

lemma standardize_one:
  assumes "\<not> df_empty d" and "r \<in> set (rows d)"
  shows "length (filter (\<lambda>x. key3 x = key3 (final_row py_str (columns d) r))
                        (rows (standardize_master py_str (Some d)))) = 1"
proof -
  let ?F = "final_row py_str (columns d)"
  let ?ys = "drop_duplicates key3 (map ?F (rows d))"
  have "key3 (?F r) \<in> set (map key3 (map ?F (rows d)))"
    using assms(2) by simp
  then have "key3 (?F r) \<in> set (map key3 ?ys)"
    by (simp only: drop_duplicates_keys)
  then obtain y where y: "y \<in> set ?ys" "key3 y = key3 (?F r)"
    by auto
  have "length (filter (\<lambda>x. key3 x = key3 y) ?ys) = 1"
    by (rule filter_key_one[OF drop_duplicates_distinct y(1)])
  then show ?thesis
    by (simp add: standardize_rows[OF assms(1)] y(2))
qed

lemma final_row_key: "key3 r = key3 r' \<Longrightarrow> key3 (final_row py_str cols r) = key3 (final_row py_str cols r')"
  by (simp add: key3_def final_row_def norm_row_def)

text \<open>
  C7. The rows of a normalized table have distinct (English, Chinese, abbreviation)
  triples. For every triple, the row the table keeps is the first input row that
  normalizes to it, and for every input row exactly one row of the result has its
  triple; rows with equal triples in the input have equal triples after normalization.
  What \<open>write_master_to_ws\<close> writes to the worksheet, and what the callers write to
  the worksheet or the local file after concatenating and normalizing, has distinct
  triples in its data rows.
\<close>

theorem standardize_master_unique:
  "distinct (map key3 (rows (standardize_master py_str df)))
   \<and> (\<not> df_empty d \<longrightarrow>
        (\<forall>k. find (\<lambda>x. key3 x = k) (rows (standardize_master py_str (Some d)))
               = find (\<lambda>x. key3 x = k) (map (final_row py_str (columns d)) (rows d))))
   \<and> (\<not> df_empty d \<longrightarrow>
        (\<forall>r\<in>set (rows d).
           length (filter (\<lambda>x. key3 x = key3 (final_row py_str (columns d) r))
                          (rows (standardize_master py_str (Some d)))) = 1))
   \<and> (key3 r = key3 r' \<longrightarrow>
          key3 (final_row py_str cols r) = key3 (final_row py_str cols r'))
   \<and> distinct (written_triples (write_master_to_ws py_str d))
   \<and> distinct (written_triples
                  (store_content (save_combined py_str nan have_ws termbase to_add)))"
proof (intro conjI impI allI ballI)
  show "distinct (map key3 (rows (standardize_master py_str df)))"
    by (rule standardize_distinct)
next
  fix k assume "\<not> df_empty d"
  then show "find (\<lambda>x. key3 x = k) (rows (standardize_master py_str (Some d)))
               = find (\<lambda>x. key3 x = k) (map (final_row py_str (columns d)) (rows d))"
    by (rule standardize_find)
next
  fix r assume "\<not> df_empty d" "r \<in> set (rows d)"
  then show "length (filter (\<lambda>x. key3 x = key3 (final_row py_str (columns d) r))
                          (rows (standardize_master py_str (Some d)))) = 1"
    by (rule standardize_one)
next
  assume "key3 r = key3 r'"
  then show "key3 (final_row py_str cols r) = key3 (final_row py_str cols r')"
    by (rule final_row_key)
next
  show "distinct (written_triples (write_master_to_ws py_str d))"
    unfolding write_master_to_ws_def
    by (rule written_distinct[OF standardize_columns standardize_distinct])
next
  let ?c = "standardize_master py_str (Some (pd_concat nan termbase to_add))"
  have "distinct (written_triples (frame_values ?c))"
    by (rule written_distinct[OF standardize_columns standardize_distinct])
  then show "distinct (written_triples
                  (store_content (save_combined py_str nan have_ws termbase to_add)))"
    by (simp add: save_combined_def store_content_def Let_def write_master_to_ws_def
        save_local_master_def standardize_master_twice)
qed

theorem standardize_master_unique_witness:
  "\<not> df_empty sample_frame
   \<and> map (\<lambda>r. map r REQUIRED_COLS) (rows (standardize_master (\<lambda>u. []) (Some sample_frame)))
       = [[Str [0x41], Str [0x7532], Str [], Str ZH_EN_ABBR, Str [0x78]]]
   \<and> length (filter (\<lambda>x. key3 x = key3 (final_row (\<lambda>u. []) (columns sample_frame)
                                              (rows sample_frame ! 1)))
                      (rows (standardize_master (\<lambda>u. []) (Some sample_frame)))) = 1
   \<and> distinct (map key3 (rows (standardize_master (\<lambda>u. []) (Some sample_frame))))"
proof -
  have ne: "\<not> df_empty sample_frame"
    by (simp add: df_empty_def sample_frame_def)
  have m: "rows sample_frame ! 1 \<in> set (rows sample_frame)"
    by (simp add: sample_frame_def)
  have v: "map (\<lambda>r. map r REQUIRED_COLS) (rows (standardize_master (\<lambda>u. []) (Some sample_frame)))
       = [[Str [0x41], Str [0x7532], Str [], Str ZH_EN_ABBR, Str [0x78]]]"
    unfolding standardize_rows[OF ne]
    by (simp add: sample_frame_def drop_duplicates_def key3_def
        final_row_def norm_row_def REQUIRED_COLS_def astype_str_def strip_def lstrip_def
        rstrip_def is_space_def)
  note T = standardize_master_unique[of "\<lambda>u. []" "Some sample_frame" sample_frame]
  have d: "distinct (map key3 (rows (standardize_master (\<lambda>u. []) (Some sample_frame))))"
    using T by (rule conjunct1)
  have "\<forall>r\<in>set (rows sample_frame).
           length (filter (\<lambda>x. key3 x = key3 (final_row (\<lambda>u. []) (columns sample_frame) r))
                          (rows (standardize_master (\<lambda>u. []) (Some sample_frame)))) = 1"
    using T[THEN conjunct2, THEN conjunct2, THEN conjunct1] ne by (rule mp)
  then have one: "length (filter (\<lambda>x. key3 x = key3 (final_row (\<lambda>u. []) (columns sample_frame)
                                              (rows sample_frame ! 1)))
                      (rows (standardize_master (\<lambda>u. []) (Some sample_frame)))) = 1"
    using m by (rule bspec)
  show ?thesis
    by (intro conjI ne v one d)
qed

section \<open>The diff engine\<close>












section \<open>A page that cannot be read\<close>

lemma scan_pages_append:
  "scan_pages cf pats n (xs @ ys)
     = scan_pages cf pats n xs @ scan_pages cf pats (n + length xs) ys"
  by (induction xs arbitrary: n) auto

lemma pages_text_from_append:
  "pages_text_from opts ocr n (xs @ ys)
     = pages_text_from opts ocr n xs @ pages_text_from opts ocr (n + length xs) ys"
  by (induction xs arbitrary: n) auto

lemma pages_text_from_length: "length (pages_text_from opts ocr n pages) = length pages"
  by (induction pages arbitrary: n) auto

lemma raw_text_failure: "raw_text (Inl e) = raw_text (Inr (Some []))"
  by (simp add: raw_text_def)

lemma page_text_failure: "page_text opts ocr n (Inl e) = page_text opts ocr n (Inr (Some []))"
  by (simp add: page_text_def raw_text_failure)

text \<open>
  C9. A page whose text extraction raises is scanned as a page with the empty text:
  \<open>scan\<close> returns the same hits, on every page, as for the document in which that
  page returns the empty string, namely the hits of the pages before, those of the
  empty text on the failing page, and those of the pages after; with the document
  opened, \<open>scan\<close> always returns hits, never the error. The loop that fills
  \<open>pages_text\<close> likewise gives the same texts for both documents, one text per page.
\<close>

theorem scan_page_failure:
  "scan cf (Inr (before @ Inl e # after)) pats
     = scan cf (Inr (before @ Inr (Some []) # after)) pats
   \<and> scan cf (Inr (before @ Inl e # after)) pats
     = Inr (scan_pages cf pats 1 before
            @ page_hits cf pats (Suc (length before)) []
            @ scan_pages cf pats (Suc (Suc (length before))) after)
   \<and> raw_text (Inl e) = []
   \<and> (\<exists>hits. scan cf (Inr pages) pats = Inr hits)
   \<and> pages_text opts ocr (before @ Inl e # after)
     = pages_text opts ocr (before @ Inr (Some []) # after)
   \<and> length (pages_text opts ocr pages) = length pages"
proof (intro conjI)
  show "scan cf (Inr (before @ Inl e # after)) pats
     = scan cf (Inr (before @ Inr (Some []) # after)) pats"
    by (simp add: scan_def scan_pages_append raw_text_failure)
  show "scan cf (Inr (before @ Inl e # after)) pats
     = Inr (scan_pages cf pats 1 before
            @ page_hits cf pats (Suc (length before)) []
            @ scan_pages cf pats (Suc (Suc (length before))) after)"
    by (simp add: scan_def scan_pages_append raw_text_def normalize_text_def)
  show "raw_text (Inl e) = []"
    by (simp add: raw_text_def)
  show "\<exists>hits. scan cf (Inr pages) pats = Inr hits"
    by (simp add: scan_def)
  show "pages_text opts ocr (before @ Inl e # after)
     = pages_text opts ocr (before @ Inr (Some []) # after)"
    by (simp add: pages_text_def pages_text_from_append page_text_failure)
  show "length (pages_text opts ocr pages) = length pages"
    by (simp add: pages_text_def pages_text_from_length)
qed

section \<open>Unknown-term candidates without the fuzzy matcher\<close>

lemma en_loop_fallback:
  "\<not> HAVE_RF D \<Longrightarrow>
   en_loop D master_df toks
     = map (\<lambda>t. \<lparr>cand_kind = UNKNOWN_EN, cand_text = t, suggest = [], score = 0\<rparr>)
         (filter (\<lambda>t. t \<noteq> [] \<and> lower D t \<notin> known_ens D master_df \<and> 4 \<le> length t)
                 (map strip toks))"
  by (induction toks) (simp_all add: Let_def)

lemma en_loop_super_fallback:
  "\<not> HAVE_RF D \<Longrightarrow>
   en_loop_super D termbase toks
     = map (\<lambda>t. \<lparr>cand_kind = UNKNOWN_EN, cand_text = t, suggest = [], score = round1 D 0\<rparr>)
         (filter (\<lambda>t. t \<noteq> [] \<and> lower D t \<notin> known_ens D termbase \<and> 4 \<le> length t)
                 (map strip toks))"
  by (induction toks) (auto simp: Let_def)

lemma zh_loop_fallback:
  "\<not> HAVE_RF D \<Longrightarrow>
   zh_loop D master_df grams
     = map (\<lambda>g. \<lparr>cand_kind = UNKNOWN_ZH, cand_text = g, suggest = [], score = 0\<rparr>)
         (filter (\<lambda>g. g \<notin> known_zhs master_df) grams)"
  by (induction grams) simp_all

lemma zh_loop_super_fallback:
  "\<not> HAVE_RF D \<Longrightarrow>
   zh_loop_super D termbase grams
     = map (\<lambda>g. \<lparr>cand_kind = UNKNOWN_ZH, cand_text = g, suggest = [], score = round1 D 0\<rparr>)
         (filter (\<lambda>g. g \<notin> known_zhs termbase) grams)"
  by (induction grams) (simp_all add: Let_def)

lemma known_ens_flag: "known_ens (D\<lparr>HAVE_RF := b\<rparr>) t = known_ens D t"
  by (simp add: known_ens_def)

lemma sample_en_tokens: "en_tokens sample_text = [[0x61, 0x62, 0x63], [0x61, 0x62, 0x63, 0x64]]"
  by (simp add: sample_text_def en_tokens_def EN_TOKEN_def WORD_def LETTER_def
      ALNUM_HYPHEN_def slice_def rx_eval)

lemma sample_cjk_tokens:
  "cjk_tokens sample_text 4 4 = [[0x8166, 0x4E2D, 0x98A8, 0x4E59]]" "cjk_tokens_basic sample_text 4 4 = [[0x8166, 0x4E2D, 0x98A8, 0x4E59]]"
  by (simp_all add: sample_text_def cjk_tokens_def cjk_tokens_basic_def cjk_tokens_of_def
      is_cjk_def slice_def)

text \<open>
  C8. Without the fuzzy matcher (\<open>HAVE_RF\<close> false), in both variants of the
  detection: the English candidates are exactly the stripped tokens that are not empty,
  whose lower case is no known English term or abbreviation, and whose length is at
  least 4, each with an empty suggestion; a token of length 3 or less is never a
  candidate. The Chinese candidates are exactly the n-grams that are no known Chinese
  term. On the sample text the word of three letters is left out, the word of four
  letters and the four CJK characters are candidates.
\<close>

theorem fallback_candidates:
  "en_cands (D\<lparr>HAVE_RF := False\<rparr>) master_df full_text
     = map (\<lambda>t. \<lparr>cand_kind = UNKNOWN_EN, cand_text = t, suggest = [], score = 0\<rparr>)
         (filter (\<lambda>t. t \<noteq> [] \<and> lower D t \<notin> known_ens D master_df \<and> 4 \<le> length t)
                 (map strip (remdups (en_tokens full_text))))
   \<and> en_cands_super (D\<lparr>HAVE_RF := False\<rparr>) master_df full_text
     = map (\<lambda>t. \<lparr>cand_kind = UNKNOWN_EN, cand_text = t, suggest = [], score = round1 D 0\<rparr>)
         (filter (\<lambda>t. t \<noteq> [] \<and> lower D t \<notin> known_ens D master_df \<and> 4 \<le> length t)
                 (map strip (remdups (en_tokens full_text))))
   \<and> zh_cands (D\<lparr>HAVE_RF := False\<rparr>) master_df n full_text
     = map (\<lambda>g. \<lparr>cand_kind = UNKNOWN_ZH, cand_text = g, suggest = [], score = 0\<rparr>)
         (filter (\<lambda>g. g \<notin> known_zhs master_df) (remdups (cjk_tokens_basic full_text n n)))
   \<and> zh_cands_super (D\<lparr>HAVE_RF := False\<rparr>) master_df n full_text
     = map (\<lambda>g. \<lparr>cand_kind = UNKNOWN_ZH, cand_text = g, suggest = [], score = round1 D 0\<rparr>)
         (filter (\<lambda>g. g \<notin> known_zhs master_df) (remdups (cjk_tokens full_text n n)))
   \<and> en_cands sample_detector [] sample_text
     = [\<lparr>cand_kind = UNKNOWN_EN, cand_text = [0x61, 0x62, 0x63, 0x64], suggest = [], score = 0\<rparr>]
   \<and> en_cands_super sample_detector [] sample_text
     = [\<lparr>cand_kind = UNKNOWN_EN, cand_text = [0x61, 0x62, 0x63, 0x64], suggest = [], score = 0\<rparr>]
   \<and> zh_cands sample_detector [] 4 sample_text
     = [\<lparr>cand_kind = UNKNOWN_ZH, cand_text = [0x8166, 0x4E2D, 0x98A8, 0x4E59], suggest = [], score = 0\<rparr>]
   \<and> zh_cands_super sample_detector [] 4 sample_text
     = [\<lparr>cand_kind = UNKNOWN_ZH, cand_text = [0x8166, 0x4E2D, 0x98A8, 0x4E59], suggest = [], score = 0\<rparr>]"
proof (intro conjI)
  let ?D = "D\<lparr>HAVE_RF := False\<rparr>"
  have off: "\<not> HAVE_RF ?D" by simp
  show "en_cands ?D master_df full_text
     = map (\<lambda>t. \<lparr>cand_kind = UNKNOWN_EN, cand_text = t, suggest = [], score = 0\<rparr>)
         (filter (\<lambda>t. t \<noteq> [] \<and> lower D t \<notin> known_ens D master_df \<and> 4 \<le> length t)
                 (map strip (remdups (en_tokens full_text))))"
    unfolding en_cands_def en_loop_fallback[OF off] by (simp add: known_ens_flag)
  show "en_cands_super ?D master_df full_text
     = map (\<lambda>t. \<lparr>cand_kind = UNKNOWN_EN, cand_text = t, suggest = [], score = round1 D 0\<rparr>)
         (filter (\<lambda>t. t \<noteq> [] \<and> lower D t \<notin> known_ens D master_df \<and> 4 \<le> length t)
                 (map strip (remdups (en_tokens full_text))))"
    unfolding en_cands_super_def en_loop_super_fallback[OF off] by (simp add: known_ens_flag)
  show "zh_cands ?D master_df n full_text
     = map (\<lambda>g. \<lparr>cand_kind = UNKNOWN_ZH, cand_text = g, suggest = [], score = 0\<rparr>)
         (filter (\<lambda>g. g \<notin> known_zhs master_df) (remdups (cjk_tokens_basic full_text n n)))"
    unfolding zh_cands_def zh_loop_fallback[OF off] ..
  show "zh_cands_super ?D master_df n full_text
     = map (\<lambda>g. \<lparr>cand_kind = UNKNOWN_ZH, cand_text = g, suggest = [], score = round1 D 0\<rparr>)
         (filter (\<lambda>g. g \<notin> known_zhs master_df) (remdups (cjk_tokens full_text n n)))"
    unfolding zh_cands_super_def zh_loop_super_fallback[OF off] by simp
  have s: "\<not> HAVE_RF sample_detector" by (simp add: sample_detector_def)
  have k: "known_ens sample_detector [] = {}" by (simp add: known_ens_def)
  have st: "strip [0x61, 0x62, 0x63] = [0x61, 0x62, 0x63]"
    "strip [0x61, 0x62, 0x63, 0x64] = [0x61, 0x62, 0x63, 0x64]"
    by (simp_all add: strip_def lstrip_def rstrip_def is_space_def)
  show "en_cands sample_detector [] sample_text
     = [\<lparr>cand_kind = UNKNOWN_EN, cand_text = [0x61, 0x62, 0x63, 0x64], suggest = [], score = 0\<rparr>]"
    unfolding en_cands_def en_loop_fallback[OF s] sample_en_tokens k by (simp add: st)
  show "en_cands_super sample_detector [] sample_text
     = [\<lparr>cand_kind = UNKNOWN_EN, cand_text = [0x61, 0x62, 0x63, 0x64], suggest = [], score = 0\<rparr>]"
    unfolding en_cands_super_def en_loop_super_fallback[OF s] sample_en_tokens k
    by (simp add: st sample_detector_def)
  show "zh_cands sample_detector [] 4 sample_text
     = [\<lparr>cand_kind = UNKNOWN_ZH, cand_text = [0x8166, 0x4E2D, 0x98A8, 0x4E59], suggest = [], score = 0\<rparr>]"
    unfolding zh_cands_def zh_loop_fallback[OF s] sample_cjk_tokens
    by (simp add: known_zhs_def)
  show "zh_cands_super sample_detector [] 4 sample_text
     = [\<lparr>cand_kind = UNKNOWN_ZH, cand_text = [0x8166, 0x4E2D, 0x98A8, 0x4E59], suggest = [], score = 0\<rparr>]"
    unfolding zh_cands_super_def zh_loop_super_fallback[OF s] sample_cjk_tokens
    by (simp add: known_zhs_def sample_detector_def)
qed

section \<open>The pair check\<close>

lemma found_pair_any: "found_pair w es expected zh_hits = has_zh_near w es expected zh_hits"
  by (induction zh_hits) (auto simp: has_zh_near_def split: if_splits)

lemma pair_loop_map:
  "pair_loop w pno norm ocr zh_hits en_hits
     = concat (map (\<lambda>h. if has_zh_near w (fst h) (zh_canonical (snd (snd h))) zh_hits then []
                          else [missing_issue w pno norm ocr h]) en_hits)"
  by (induction en_hits) (auto simp: found_pair_any missing_issue_def)

lemma has_zh_near_located:
  "has_zh_near w es zh (locate_hits cf (zh_pats term_df) norm)
     \<longleftrightarrow> (\<exists>row\<in>set term_df. zh_canonical row = zh) \<and> zh_located cf w norm zh es"
  by (auto simp: has_zh_near_def locate_hits_def zh_pats_def zh_located_def list_ex_iff)

lemma en_hits_rows:
  "h \<in> set (locate_hits cf (en_pats term_df) norm) \<Longrightarrow> snd (snd h) \<in> set term_df"
  "h \<in> set (locate_hits cf (en_pats_super term_df) norm) \<Longrightarrow> snd (snd h) \<in> set term_df"
  by (auto simp: locate_hits_def en_pats_def en_pats_super_def)

lemma has_zh_near_own:
  assumes "row \<in> set term_df"
  shows "has_zh_near w es (zh_canonical row) (locate_hits cf (zh_pats term_df) norm)
           = zh_located cf w norm (zh_canonical row) es"
  using assms by (auto simp: has_zh_near_located)

lemma pair_loop_located:
  assumes "\<And>h. h \<in> set en_hits \<Longrightarrow> snd (snd h) \<in> set term_df"
  shows "pair_loop w pno norm ocr (locate_hits cf (zh_pats term_df) norm) en_hits
     = concat (map (\<lambda>h. if zh_located cf w norm (zh_canonical (snd (snd h))) (fst h) then []
                          else [missing_issue w pno norm ocr h]) en_hits)"
  unfolding pair_loop_map
  by (rule arg_cong[where f = concat], rule map_cong[OF refl])
     (simp add: has_zh_near_own assms)


lemma check_page_pair_issues:
  "pair_issues (check_page U opts term_df pno page st)
     = pair_issues st
       @ (if check_pair opts
          then concat (map (\<lambda>h. if zh_located (case_pair U) (window opts) (fst page)
                                       (zh_canonical (snd (snd h))) (fst h)
                                  then [] else [missing_issue (window opts) pno (fst page)
                                                  (Some (snd page)) h])
                           (locate_hits (case_pair U) (en_pats term_df) (fst page)))
          else [])"
proof -
  have "pair_loop (window opts) pno (fst page) (Some (snd page))
          (locate_hits (case_pair U) (zh_pats term_df) (fst page))
          (locate_hits (case_pair U) (en_pats term_df) (fst page))
        = concat (map (\<lambda>h. if zh_located (case_pair U) (window opts) (fst page)
                                       (zh_canonical (snd (snd h))) (fst h)
                                  then [] else [missing_issue (window opts) pno (fst page)
                                                  (Some (snd page)) h])
                           (locate_hits (case_pair U) (en_pats term_df) (fst page)))"
    by (rule pair_loop_located) (rule en_hits_rows)
  then show ?thesis
    by (simp add: check_page_def Let_def)
qed

lemmas check_eval = check_document_def check_page_def locate_hits_def en_pats_def zh_pats_def
  en_pattern_def cjk_pat_def cjk_fuzzy_pattern_def cjk_fragment_def HYPHEN_def is_cjk_def
  strip_def lstrip_def rstrip_def near_def has_zh_near_def startswith_def ZH_PAREN_def
  slice_def row_of_def ZH_EN_ABBR_def ieq_def ascii_lower_def ascii_upper_def
  sample_casing_def sample_options_def CT_row_def MRI_row_def page_CT_def page_CT_zh_def
  page_CT_other_def

lemma sample_pair_alone:
  "pair_issues (check_document sample_casing sample_options [CT_row] [(page_CT, False)])
     = [missing_issue 80 1 page_CT (Some False) (0, 2, CT_row)]"
  by (simp add: check_eval rx_eval missing_issue_def Let_def)

lemma sample_pair_with_zh:
  "pair_issues (check_document sample_casing sample_options [CT_row] [(page_CT_zh, False)]) = []"
  by (simp add: check_eval rx_eval missing_issue_def Let_def)

lemma sample_pair_other:
  "pair_issues (check_document sample_casing sample_options [CT_row, MRI_row]
                  [(page_CT_other, False)])
     = [missing_issue 80 1 page_CT_other (Some False) (0, 2, CT_row)]"
  by (simp add: check_eval rx_eval missing_issue_def Let_def)


lemma upt_shift: "[pno ..< pno + Suc n] = pno # [Suc pno ..< Suc pno + n]"
  by (simp add: upt_rec)

lemma check_pages_pair_issues:
  "pair_issues (check_pages U opts term_df pno pages st)
     = pair_issues st
       @ concat (map (\<lambda>(i, page).
                   if check_pair opts
                   then concat (map (\<lambda>h. if zh_located (case_pair U) (window opts) (fst page)
                                                (zh_canonical (snd (snd h))) (fst h)
                                           then [] else [missing_issue (window opts) i (fst page)
                                                           (Some (snd page)) h])
                                    (locate_hits (case_pair U) (en_pats term_df) (fst page)))
                   else [])
                 (zip [pno ..< pno + length pages] pages))"
proof (induction pages arbitrary: pno st)
  case Nil
  show ?case by simp
next
  case (Cons page pages)
  have z: "zip [pno ..< pno + length (page # pages)] (page # pages)
             = (pno, page) # zip [Suc pno ..< Suc pno + length pages] pages"
    using upt_shift[of pno "length pages"] by simp
  show ?case
    unfolding z check_pages.simps Cons.IH check_page_pair_issues by simp
qed

lemma pair_issues_super_pages:
  "pair_issues_super U w termbase pno texts
     = concat (map (\<lambda>(i, txt).
                   concat (map (\<lambda>h. if zh_located (case_pair U) w txt
                                            (zh_canonical (snd (snd h))) (fst h)
                                       then [] else [missing_issue w i txt None h])
                                (locate_hits (case_pair U) (en_pats_super termbase) txt)))
                 (zip [pno ..< pno + length texts] texts))"
proof (induction texts arbitrary: pno)
  case Nil
  show ?case by simp
next
  case (Cons tx texts)
  have z: "zip [pno ..< pno + length (tx # texts)] (tx # texts)
             = (pno, tx) # zip [Suc pno ..< Suc pno + length texts] texts"
    using upt_shift[of pno "length texts"] by simp
  have p: "pair_loop w pno tx None (locate_hits (case_pair U) (zh_pats termbase) tx)
             (locate_hits (case_pair U) (en_pats_super termbase) tx)
           = concat (map (\<lambda>h. if zh_located (case_pair U) w tx
                                     (zh_canonical (snd (snd h))) (fst h)
                                then [] else [missing_issue w pno tx None h])
                         (locate_hits (case_pair U) (en_pats_super termbase) tx))"
    by (rule pair_loop_located) (rule en_hits_rows)
  show ?case
    unfolding z pair_issues_super.simps Cons.IH p by simp
qed

text \<open>
  C2. On every page, for every hit of the pattern of a canonical English term (every
  located occurrence of the term of a row with a non-blank English term), the pair
  check emits exactly one missing-or-wrong-Chinese issue when the scanner locates no
  occurrence of the expected Chinese term of that row starting within the window of
  the start of the hit, and none when it locates one; the located occurrences of the
  Chinese terms of other rows play no part. An occurrence is what the scanner
  locates: a match of the term's pattern, case-insensitive and tolerant of whitespace,
  in the non-overlapping scan of the page. This holds for the loop of
  app_streamlit_plus.py (when the check is enabled) and for that of
  app_streamlit_super.py. With the row of \<open>CT\<close>: the page \<open>CT\<close> gives exactly one
  issue, the page with the Chinese term after \<open>CT\<close> gives none, and the page with the
  Chinese term of another row after \<open>CT\<close> gives one.
\<close>

theorem pair_check_located:
  "pair_issues (check_document U opts term_df pages)
     = concat (map (\<lambda>(i, page).
                   if check_pair opts
                   then concat (map (\<lambda>h. if zh_located (case_pair U) (window opts) (fst page)
                                                (zh_canonical (snd (snd h))) (fst h)
                                           then [] else [missing_issue (window opts) i (fst page)
                                                           (Some (snd page)) h])
                                    (locate_hits (case_pair U) (en_pats term_df) (fst page)))
                   else [])
                 (zip [1 ..< 1 + length pages] pages))
   \<and> pair_issues_super U w term_df 1 texts
     = concat (map (\<lambda>(i, txt).
                   concat (map (\<lambda>h. if zh_located (case_pair U) w txt
                                            (zh_canonical (snd (snd h))) (fst h)
                                       then [] else [missing_issue w i txt None h])
                                (locate_hits (case_pair U) (en_pats_super term_df) txt)))
                 (zip [1 ..< 1 + length texts] texts))
   \<and> pair_issues (check_document sample_casing sample_options [CT_row] [(page_CT, False)])
     = [missing_issue 80 1 page_CT (Some False) (0, 2, CT_row)]
   \<and> pair_issues (check_document sample_casing sample_options [CT_row] [(page_CT_zh, False)])
     = []
   \<and> pair_issues (check_document sample_casing sample_options [CT_row, MRI_row]
                    [(page_CT_other, False)])
     = [missing_issue 80 1 page_CT_other (Some False) (0, 2, CT_row)]"
proof (intro conjI)
  show "pair_issues (check_document U opts term_df pages)
     = concat (map (\<lambda>(i, page).
                   if check_pair opts
                   then concat (map (\<lambda>h. if zh_located (case_pair U) (window opts) (fst page)
                                                (zh_canonical (snd (snd h))) (fst h)
                                           then [] else [missing_issue (window opts) i (fst page)
                                                           (Some (snd page)) h])
                                    (locate_hits (case_pair U) (en_pats term_df) (fst page)))
                   else [])
                 (zip [1 ..< 1 + length pages] pages))"
    unfolding check_document_def check_pages_pair_issues by simp
  show "pair_issues_super U w term_df 1 texts
     = concat (map (\<lambda>(i, txt).
                   concat (map (\<lambda>h. if zh_located (case_pair U) w txt
                                            (zh_canonical (snd (snd h))) (fst h)
                                       then [] else [missing_issue w i txt None h])
                                (locate_hits (case_pair U) (en_pats_super term_df) txt)))
                 (zip [1 ..< 1 + length texts] texts))"
    by (rule pair_issues_super_pages)
  show "pair_issues (check_document sample_casing sample_options [CT_row] [(page_CT, False)])
     = [missing_issue 80 1 page_CT (Some False) (0, 2, CT_row)]"
    by (rule sample_pair_alone)
  show "pair_issues (check_document sample_casing sample_options [CT_row] [(page_CT_zh, False)])
     = []"
    by (rule sample_pair_with_zh)
  show "pair_issues (check_document sample_casing sample_options [CT_row, MRI_row]
                    [(page_CT_other, False)])
     = [missing_issue 80 1 page_CT_other (Some False) (0, 2, CT_row)]"
    by (rule sample_pair_other)
qed

section \<open>The first-mention check\<close>

lemma zip_upt_Suc:
  "zip [Suc a ..< Suc b] xs = map (\<lambda>(j, x). (Suc j, x)) (zip [a ..< b] xs)"
proof -
  have "[Suc a ..< Suc b] = map Suc [a ..< b]" by (simp add: map_Suc_upt)
  then show ?thesis by (simp add: zip_map1)
qed

lemma first_loop_old:
  "mention_key U h \<in> seen \<Longrightarrow>
   first_loop U w pno norm ocr zh_hits seen (h # hs)
     = first_loop U w pno norm ocr zh_hits seen hs"
  by (cases h) (simp add: mention_key_def Let_def)

lemma first_loop_new:
  "mention_key U h \<notin> seen \<Longrightarrow>
   first_loop U w pno norm ocr zh_hits seen (h # hs)
     = (fst (first_loop U w pno norm ocr zh_hits (insert (mention_key U h) seen) hs),
        (if zh_style U h \<and> \<not> has_zh_near w (fst h) (zh_canonical (snd (snd h))) zh_hits
         then [first_issue w pno norm ocr h] else [])
        @ snd (first_loop U w pno norm ocr zh_hits (insert (mention_key U h) seen) hs))"
  by (cases h) (simp add: mention_key_def zh_style_def first_issue_def Let_def)

lemma first_loop_seen:
  "fst (first_loop U w pno norm ocr zh_hits seen hits) = seen \<union> mention_key U ` set hits"
proof (induction hits arbitrary: seen)
  case Nil
  show ?case by simp
next
  case (Cons h hs)
  show ?case
  proof (cases "mention_key U h \<in> seen")
    case True
    then show ?thesis
      unfolding first_loop_old[OF True] Cons.IH by auto
  next
    case False
    show ?thesis
      unfolding first_loop_new[OF False] fst_conv Cons.IH by auto
  qed
qed

lemma first_loop_issues:
  "snd (first_loop U w pno norm ocr zh_hits seen hits)
     = concat (map (\<lambda>(j, h).
                 if mention_key U h \<notin> seen \<union> mention_key U ` set (take j hits)
                    \<and> zh_style U h
                    \<and> \<not> has_zh_near w (fst h) (zh_canonical (snd (snd h))) zh_hits
                 then [first_issue w pno norm ocr h] else [])
               (zip [0 ..< length hits] hits))"
proof (induction hits arbitrary: seen)
  case Nil
  show ?case by simp
next
  case (Cons h hs)
  define emit where "emit = (\<lambda>sn hts (p :: nat \<times> term_hit).
     if mention_key U (snd p) \<notin> sn \<union> mention_key U ` set (take (fst p) hts)
        \<and> zh_style U (snd p)
        \<and> \<not> has_zh_near w (fst (snd p)) (zh_canonical (snd (snd (snd p)))) zh_hits
     then [first_issue w pno norm ocr (snd p)] else [])"
  have ih: "\<And>sn. snd (first_loop U w pno norm ocr zh_hits sn hs)
              = concat (map (emit sn hs) (zip [0 ..< length hs] hs))"
    unfolding Cons.IH emit_def by (simp add: split_def)
  have goal: "(\<lambda>(j, x). if mention_key U x \<notin> seen \<union> mention_key U ` set (take j (h # hs))
                    \<and> zh_style U x
                    \<and> \<not> has_zh_near w (fst x) (zh_canonical (snd (snd x))) zh_hits
                 then [first_issue w pno norm ocr x] else []) = emit seen (h # hs)"
    unfolding emit_def by (simp add: split_def)
  have u: "[0 ..< length (h # hs)] = 0 # [Suc 0 ..< Suc (length hs)]"
    by (simp add: upt_conv_Cons del: upt_Suc)
  have z: "zip [0 ..< length (h # hs)] (h # hs)
             = (0, h) # map (\<lambda>(j, x). (Suc j, x)) (zip [0 ..< length hs] hs)"
    unfolding u zip_Cons_Cons zip_upt_Suc ..
  show ?case
  proof (cases "mention_key U h \<in> seen")
    case True
    have hd: "emit seen (h # hs) (0, h) = []"
      using True by (simp add: emit_def)
    have tl: "\<And>p. emit seen (h # hs) (Suc (fst p), snd p) = emit seen hs p"
      using True by (auto simp: emit_def)
    have m: "map (emit seen (h # hs)) (map (\<lambda>(j, x). (Suc j, x)) (zip [0 ..< length hs] hs))
            = map (emit seen hs) (zip [0 ..< length hs] hs)"
      by (simp add: split_def tl)
    show ?thesis
      unfolding goal z first_loop_old[OF True] ih list.map(2) m concat.simps hd by simp
  next
    case False
    have hd: "emit seen (h # hs) (0, h)
                = (if zh_style U h \<and> \<not> has_zh_near w (fst h) (zh_canonical (snd (snd h))) zh_hits
                   then [first_issue w pno norm ocr h] else [])"
      using False by (simp add: emit_def)
    have tl: "\<And>p. emit seen (h # hs) (Suc (fst p), snd p)
                   = emit (insert (mention_key U h) seen) hs p"
      by (auto simp: emit_def)
    have m: "map (emit seen (h # hs)) (map (\<lambda>(j, x). (Suc j, x)) (zip [0 ..< length hs] hs))
            = map (emit (insert (mention_key U h) seen) hs) (zip [0 ..< length hs] hs)"
      by (simp add: split_def tl)
    show ?thesis
      unfolding goal z first_loop_new[OF False] snd_conv ih list.map(2) m concat.simps hd
      by simp
  qed
qed


text \<open>
  The first-mention check of app_streamlit_plus.py on one page: the hit number \<open>j\<close>
  of the page adds an issue exactly when its key (the lower-cased English term of its
  row) is not among the keys seen on earlier pages nor among those of the earlier hits
  of the page, the style of its row starts with \<open>ZH(\<close>, and the scanner locates no
  occurrence of the expected Chinese term within the window. Every hit adds its key to
  the set, so no later hit with that key adds an issue, and the result does not depend
  on whether the pair check runs.
\<close>

lemma check_page_first_mentions:
  "first_mentions (check_page U opts term_df pno page st)
     = first_mentions st
       @ (if check_first opts
          then concat (map (\<lambda>(j, h).
                  if mention_key U h
                       \<notin> seen_terms st
                          \<union> mention_key U
                              ` set (take j (locate_hits (case_pair U) (en_pats term_df) (fst page)))
                     \<and> zh_style U h
                     \<and> \<not> zh_located (case_pair U) (window opts) (fst page)
                            (zh_canonical (snd (snd h))) (fst h)
                  then [first_issue (window opts) pno (fst page) (Some (snd page)) h] else [])
                (zip [0 ..< length (locate_hits (case_pair U) (en_pats term_df) (fst page))]
                     (locate_hits (case_pair U) (en_pats term_df) (fst page))))
          else [])"
proof -
  let ?hits = "locate_hits (case_pair U) (en_pats term_df) (fst page)"
  let ?zh = "locate_hits (case_pair U) (zh_pats term_df) (fst page)"
  have "map (\<lambda>(j, h).
                  if mention_key U h \<notin> seen_terms st \<union> mention_key U ` set (take j ?hits)
                     \<and> zh_style U h
                     \<and> \<not> has_zh_near (window opts) (fst h) (zh_canonical (snd (snd h))) ?zh
                  then [first_issue (window opts) pno (fst page) (Some (snd page)) h] else [])
                (zip [0 ..< length ?hits] ?hits)
        = map (\<lambda>(j, h).
                  if mention_key U h \<notin> seen_terms st \<union> mention_key U ` set (take j ?hits)
                     \<and> zh_style U h
                     \<and> \<not> zh_located (case_pair U) (window opts) (fst page)
                            (zh_canonical (snd (snd h))) (fst h)
                  then [first_issue (window opts) pno (fst page) (Some (snd page)) h] else [])
                (zip [0 ..< length ?hits] ?hits)"
  proof (rule map_cong[OF refl])
    fix p assume "p \<in> set (zip [0 ..< length ?hits] ?hits)"
    then have "(fst p, snd p) \<in> set (zip [0 ..< length ?hits] ?hits)" by simp
    then have "snd p \<in> set ?hits" by (rule set_zip_rightD)
    then have "snd (snd (snd p)) \<in> set term_df" by (rule en_hits_rows)
    then have "has_zh_near (window opts) (fst (snd p)) (zh_canonical (snd (snd (snd p)))) ?zh
                 = zh_located (case_pair U) (window opts) (fst page)
                     (zh_canonical (snd (snd (snd p)))) (fst (snd p))"
      by (rule has_zh_near_own)
    then show "(case p of (j, h) \<Rightarrow>
                  if mention_key U h \<notin> seen_terms st \<union> mention_key U ` set (take j ?hits)
                     \<and> zh_style U h
                     \<and> \<not> has_zh_near (window opts) (fst h) (zh_canonical (snd (snd h))) ?zh
                  then [first_issue (window opts) pno (fst page) (Some (snd page)) h] else [])
            = (case p of (j, h) \<Rightarrow>
                  if mention_key U h \<notin> seen_terms st \<union> mention_key U ` set (take j ?hits)
                     \<and> zh_style U h
                     \<and> \<not> zh_located (case_pair U) (window opts) (fst page)
                            (zh_canonical (snd (snd h))) (fst h)
                  then [first_issue (window opts) pno (fst page) (Some (snd page)) h] else [])"
      by (cases p) simp
  qed
  then have "snd (first_loop U (window opts) pno (fst page) (Some (snd page)) ?zh (seen_terms st) ?hits)
        = concat (map (\<lambda>(j, h).
                  if mention_key U h \<notin> seen_terms st \<union> mention_key U ` set (take j ?hits)
                     \<and> zh_style U h
                     \<and> \<not> zh_located (case_pair U) (window opts) (fst page)
                            (zh_canonical (snd (snd h))) (fst h)
                  then [first_issue (window opts) pno (fst page) (Some (snd page)) h] else [])
                (zip [0 ..< length ?hits] ?hits))"
    unfolding first_loop_issues by (rule arg_cong)
  then show ?thesis
    by (simp add: check_page_def Let_def)
qed

lemma check_page_seen_terms:
  "seen_terms (check_page U opts term_df pno page st)
     = (if check_first opts
        then seen_terms st
             \<union> mention_key U ` set (locate_hits (case_pair U) (en_pats term_df) (fst page))
        else seen_terms st)"
  by (simp add: check_page_def Let_def first_loop_seen)

lemma check_pages_first_independent:
  assumes "first_mentions st = first_mentions st'" and "seen_terms st = seen_terms st'"
  shows "first_mentions (check_pages U (opts\<lparr>check_pair := b\<rparr>) term_df pno pages st)
           = first_mentions (check_pages U opts term_df pno pages st')
         \<and> seen_terms (check_pages U (opts\<lparr>check_pair := b\<rparr>) term_df pno pages st)
           = seen_terms (check_pages U opts term_df pno pages st')"
  using assms
proof (induction pages arbitrary: pno st st')
  case Nil
  then show ?case by simp
next
  case (Cons page pages)
  have f: "first_mentions (check_page U (opts\<lparr>check_pair := b\<rparr>) term_df pno page st)
             = first_mentions (check_page U opts term_df pno page st')"
    unfolding check_page_first_mentions using Cons.prems by (simp cong: if_cong)
  have s: "seen_terms (check_page U (opts\<lparr>check_pair := b\<rparr>) term_df pno page st)
             = seen_terms (check_page U opts term_df pno page st')"
    unfolding check_page_seen_terms using Cons.prems by simp
  show ?case
    unfolding check_pages.simps by (rule Cons.IH[OF f s])
qed

lemma check_first_independent:
  "first_mentions (check_document U (opts\<lparr>check_pair := b\<rparr>) term_df pages)
     = first_mentions (check_document U opts term_df pages)"
  unfolding check_document_def
  by (rule check_pages_first_independent[THEN conjunct1]) simp_all

lemma super_key_raises: "super_key U row = Inl TypeError"
  by (simp add: super_key_def series_getitem_int_def str_getitem_str_def)

lemma first_loop_super_raises:
  "first_loop_super U w pno t zh_hits seen hits
     = (if hits = [] then Inr (seen, []) else Inl TypeError)"
  by (cases hits) (auto simp: super_key_raises)

lemma first_mentions_super_result:
  "first_mentions_super U w termbase pno texts seen
     = (if list_ex (\<lambda>t. locate_hits (case_pair U) (en_pats_super termbase) t \<noteq> []) texts
        then Inl TypeError else Inr [])"
  by (induction texts arbitrary: pno seen) (simp_all add: first_loop_super_raises)

lemma sample_first_alone:
  "first_mentions (check_document sample_casing sample_options [CT_row] [(page_CT, False)])
     = [first_issue 80 1 page_CT (Some False) (0, 2, CT_row)]"
  by (simp add: check_eval rx_eval first_issue_def Let_def)

lemma sample_first_twice:
  "first_mentions (check_document sample_casing sample_options [CT_row]
                     [(page_CT, False), ([0x63, 0x74], False)])
     = [first_issue 80 1 page_CT (Some False) (0, 2, CT_row)]"
  by (simp add: check_eval rx_eval first_issue_def Let_def)

lemma sample_first_with_zh:
  "first_mentions (check_document sample_casing sample_options [CT_row] [(page_CT_zh, False)])
     = []"
  by (simp add: check_eval rx_eval first_issue_def Let_def)

lemma sample_super_hits:
  "locate_hits (case_pair sample_casing) (en_pats_super [CT_row]) page_CT = [(0, 2, CT_row)]"
  by (simp add: check_eval en_pats_super_def rx_eval)

text \<open>
  C3. The first-mention loop of app_streamlit_super.py does not do what the loop of
  app_streamlit_plus.py does: with the row of \<open>CT\<close> in the table and the page
  \<open>CT\<close>, it raises \<open>TypeError\<close> at the first English hit, where the loop of
  app_streamlit_plus.py reports one first-mention issue. In general it raises as soon
  as any page has an English hit, and returns no issue otherwise.
\<close>

theorem first_mentions_super_raises:
  "first_mentions_super sample_casing 80 [CT_row] 1 [page_CT] {} = Inl TypeError
   \<and> first_mentions (check_document sample_casing sample_options [CT_row] [(page_CT, False)])
       = [first_issue 80 1 page_CT (Some False) (0, 2, CT_row)]
   \<and> first_mentions_super U w termbase pno texts seen
       = (if list_ex (\<lambda>t. locate_hits (case_pair U) (en_pats_super termbase) t \<noteq> []) texts
          then Inl TypeError else Inr [])"
proof (intro conjI)
  show "first_mentions_super sample_casing 80 [CT_row] 1 [page_CT] {} = Inl TypeError"
    unfolding first_mentions_super_result by (simp add: sample_super_hits)
  show "first_mentions (check_document sample_casing sample_options [CT_row] [(page_CT, False)])
       = [first_issue 80 1 page_CT (Some False) (0, 2, CT_row)]"
    by (rule sample_first_alone)
  show "first_mentions_super U w termbase pno texts seen
       = (if list_ex (\<lambda>t. locate_hits (case_pair U) (en_pats_super termbase) t \<noteq> []) texts
          then Inl TypeError else Inr [])"
    by (rule first_mentions_super_result)
qed

end
